theory Spec2Isabelle
  imports
    Main
    "HOL-Library.Char_ord"
    "HOL-Library.List_Lexorder"
    "HOL-Library.Multiset"
begin

section \<open>Python text primitives\<close>

text \<open>
  The client (\<^verbatim>\<open>client.py\<close>) and the server (\<^verbatim>\<open>server.py\<close>) exchange byte strings
  and build file names from text. Both are modelled as \<^typ>\<open>string\<close> (a list of 8-bit
  characters): \<^verbatim>\<open>str.encode()\<close> and \<^verbatim>\<open>bytes.decode()\<close> are the identity on ASCII
  text, which is what the protocol literals, the size fields and the option fields are.
\<close>

type_synonym bytes = string

subsection \<open>\<^verbatim>\<open>str(n)\<close> for an integer\<close>

definition digit_char :: "nat \<Rightarrow> char" where
  "digit_char d = ''0123456789'' ! d"

function dec_nat :: "nat \<Rightarrow> string" where
  "dec_nat n = (if n < 10 then [digit_char n] else dec_nat (n div 10) @ [digit_char (n mod 10)])"
  by pat_completeness auto
termination
  by (relation "measure id") auto

declare dec_nat.simps [simp del]

definition str_int :: "int \<Rightarrow> string" where
  "str_int i = (if i < 0 then CHR ''-'' # dec_nat (nat (- i)) else dec_nat (nat i))"

subsection \<open>\<^verbatim>\<open>bytes.ljust(width)\<close>, and \<^verbatim>\<open>rjust\<close> for comparison\<close>

text \<open>
  \<^verbatim>\<open>b.ljust(w)\<close> returns \<^verbatim>\<open>b\<close> left-justified: the fill bytes (spaces) are appended on
  the right, and a \<^verbatim>\<open>b\<close> longer than \<^verbatim>\<open>w\<close> is returned unchanged.
\<close>

definition ljust :: "nat \<Rightarrow> string \<Rightarrow> string" where
  "ljust w s = s @ replicate (w - length s) CHR '' ''"

text \<open>
  The padding the specification describes (padding on the left, with a fill character),
  that is Python's \<^verbatim>\<open>rjust\<close>; it is used only to compare with what the code sends.
\<close>

definition left_padded :: "char \<Rightarrow> nat \<Rightarrow> string \<Rightarrow> string" where
  "left_padded fill w s = replicate (w - length s) fill @ s"

subsection \<open>Whitespace, case and character classes (ASCII)\<close>

definition is_space :: "char \<Rightarrow> bool" where
  "is_space c = ((of_char c :: nat) \<in> {9, 10, 11, 12, 13, 28, 29, 30, 31, 32})"

definition strip :: "string \<Rightarrow> string" where
  "strip s = rev (dropWhile is_space (rev (dropWhile is_space s)))"

definition is_digit :: "char \<Rightarrow> bool" where
  "is_digit c = (48 \<le> (of_char c :: nat) \<and> (of_char c :: nat) \<le> 57)"

definition is_upper :: "char \<Rightarrow> bool" where
  "is_upper c = (65 \<le> (of_char c :: nat) \<and> (of_char c :: nat) \<le> 90)"



text \<open>
  \<^verbatim>\<open>str.lower()\<close> on ASCII: an upper-case letter moves 32 code points up, which for the
  codes 65 to 90 is setting the bit of weight 32.
\<close>

definition lower_char :: "char \<Rightarrow> char" where
  "lower_char c =
     (if is_upper c
      then (case c of Char b0 b1 b2 b3 b4 b5 b6 b7 \<Rightarrow> Char b0 b1 b2 b3 b4 True b6 b7)
      else c)"

definition lower :: "string \<Rightarrow> string" where
  "lower s = map lower_char s"

subsection \<open>\<^verbatim>\<open>int(s)\<close>\<close>

text \<open>
  \<^verbatim>\<open>int(s)\<close> strips surrounding whitespace, accepts one optional sign and then decimal
  digits, where single underscores may separate digits; anything else raises
  \<^verbatim>\<open>ValueError\<close> (here \<open>None\<close>).
\<close>

definition digit_val :: "char \<Rightarrow> nat" where
  "digit_val c = (of_char c :: nat) - 48"


fun parse_digits :: "nat \<Rightarrow> string \<Rightarrow> nat option" where
  "parse_digits acc [] = Some acc"
| "parse_digits acc (c # cs) =
     (if is_digit c then parse_digits (10 * acc + digit_val c) cs
      else if c = CHR ''_'' \<and> cs \<noteq> [] \<and> is_digit (hd cs) then parse_digits acc cs
      else None)"

definition parse_unsigned :: "string \<Rightarrow> nat option" where
  "parse_unsigned body =
     (if body = [] \<or> \<not> is_digit (hd body) then None else parse_digits 0 body)"

definition py_int :: "string \<Rightarrow> int option" where
  "py_int s =
     (case strip s of
        [] \<Rightarrow> None
      | c # r \<Rightarrow>
          if c = CHR ''-'' then map_option (\<lambda>n. - int n) (parse_unsigned r)
          else if c = CHR ''+'' then map_option int (parse_unsigned r)
          else map_option int (parse_unsigned (c # r)))"

section \<open>Frame codec: the 16-byte size field\<close>

text \<open>
  Both ends build the size field with the same expression:
  \<^verbatim>\<open>sock.sendall(str(file_size).encode().ljust(16))\<close> in the client and
  \<^verbatim>\<open>conn.sendall(str(output_size).encode().ljust(16))\<close> in the server.
\<close>

definition encode_size :: "int \<Rightarrow> bytes" where
  "encode_size n = ljust 16 (str_int n)"

text \<open>The receiving end: \<^verbatim>\<open>int(size_bytes.decode().strip())\<close>.\<close>

definition decode_size :: "bytes \<Rightarrow> int option" where
  "decode_size b = py_int (strip b)"

section \<open>Exceptions\<close>

text \<open>
  The exceptions the two programs raise and catch. The string is the message where the
  source gives one that does not depend on library internals.
\<close>

datatype error =
    ConnectionAbortedError string
  | ConnectionResetError
  | SocketTimeout
  | ValueError string
  | FileNotFoundError string
  | PyException string

section \<open>\<^verbatim>\<open>os.path\<close> (POSIX flavour)\<close>

definition path_basename :: "string \<Rightarrow> string" where
  "path_basename p = rev (takeWhile (\<lambda>c. c \<noteq> CHR ''/'') (rev p))"

definition path_join :: "string \<Rightarrow> string \<Rightarrow> string" where
  "path_join a b =
     (if b \<noteq> [] \<and> hd b = CHR ''/'' then b
      else if a = [] \<or> last a = CHR ''/'' then a @ b
      else a @ ''/'' @ b)"



section \<open>The server's workspace paths (\<^verbatim>\<open>server_program\<close>, ``Setup Paths'')\<close>

text \<open>
  The paths are computed from the action, the base file name the client sent, the
  temporary directory and \<^verbatim>\<open>os.getpid()\<close>. Nothing else of the connection (such as
  the peer address \<^verbatim>\<open>addr\<close>) enters them.
\<close>

record workspace =
  input_path :: string
  output_path :: string
  temp_dir_for_action :: "string option"
  output_filename_suggestion :: string
  received_zip_path :: "string option"



text \<open>
  The scratch directory \<^verbatim>\<open>merge_pdfs\<close> makes for itself:
  \<^verbatim>\<open>os.path.join(tempfile.gettempdir(), f"merge_{os.path.basename(output_path)}_extracted_{os.getpid()}")\<close>.
\<close>

definition merge_extract_dir :: "string \<Rightarrow> nat \<Rightarrow> string \<Rightarrow> string" where
  "merge_extract_dir temp_dir pid outp =
     path_join temp_dir (''merge_'' @ path_basename outp @ ''_extracted_'' @ str_int (int pid))"






section \<open>Files and the processing engine\<close>

text \<open>
  The temporary files of the server are a map from path to content. The document
  libraries the server calls (pypdf, PyMuPDF, pdf2docx, Office automation, \<^verbatim>\<open>zipfile\<close>)
  are parameters of the model: a record of functions over an abstract type of pages.
\<close>

type_synonym fs = "string \<Rightarrow> bytes option"

definition read_file :: "fs \<Rightarrow> string \<Rightarrow> error + bytes" where
  "read_file files p = (case files p of None \<Rightarrow> Inl (FileNotFoundError p) | Some b \<Rightarrow> Inr b)"

record 'p engine =
  read_pdf :: "bytes \<Rightarrow> error + 'p list"
  write_pdf :: "'p list \<Rightarrow> bytes"
  rotate_page :: "int \<Rightarrow> 'p \<Rightarrow> 'p"
  zip_entries :: "bytes \<Rightarrow> error + (string \<times> bytes option) list"
  zip_write :: "(string \<times> bytes) list \<Rightarrow> bytes"
  convert_pdf_to_jpg :: "bytes \<Rightarrow> error + (string \<times> bytes) list"
  process_external :: "string \<Rightarrow> string \<Rightarrow> bytes \<Rightarrow> string \<Rightarrow> error + bytes option"

text \<open>
  \<^item> \<open>read_pdf\<close> is \<^verbatim>\<open>pypdf.PdfReader(path).pages\<close> on the content of the file,
    \<open>write_pdf\<close> is \<^verbatim>\<open>PdfWriter.write\<close>, \<open>rotate_page\<close> is \<^verbatim>\<open>page.rotate(angle)\<close>;
  \<^item> \<open>zip_entries\<close> is \<^verbatim>\<open>zipfile.ZipFile(path, 'r').infolist()\<close> in archive order, each
    entry with its name and its content (\<open>None\<close> when reading the entry raises);
    \<open>zip_write\<close> builds an archive from named contents;
  \<^item> \<open>process_external action ext input option\<close> stands for the conversions that are
    wholly library calls (\<^verbatim>\<open>convert\<close>, \<^verbatim>\<open>encrypt\<close>, \<^verbatim>\<open>decrypt\<close>, \<^verbatim>\<open>pdf_to_word\<close>,
    \<^verbatim>\<open>pdf_to_pptx\<close>, \<^verbatim>\<open>compress\<close>, \<^verbatim>\<open>add_numbers\<close>): it raises, or returns the
    content of the output file it wrote (\<open>None\<close> when it returned without writing one).
\<close>

section \<open>Page ranges (\<^verbatim>\<open>split_pdf\<close> and \<^verbatim>\<open>rotate_pdf\<close>)\<close>

text \<open>\<^verbatim>\<open>s.split(c)\<close>: every occurrence of the separator ends a field.\<close>

fun split_on :: "char \<Rightarrow> string \<Rightarrow> string list" where
  "split_on c [] = [[]]"
| "split_on c (x # xs) =
     (if x = c then [] # split_on c xs
      else (case split_on c xs of [] \<Rightarrow> [[x]] | w # ws \<Rightarrow> (x # w) # ws))"

text \<open>\<^verbatim>\<open>s.split(c, 1)\<close> for an \<^verbatim>\<open>s\<close> that contains \<^verbatim>\<open>c\<close>: the text before and after the first one.\<close>

definition split_once :: "char \<Rightarrow> string \<Rightarrow> string \<times> string" where
  "split_once c s = (takeWhile (\<lambda>x. x \<noteq> c) s, tl (dropWhile (\<lambda>x. x \<noteq> c) s))"

text \<open>
  The body of the \<^verbatim>\<open>try\<close> block that both functions run on one stripped, non-empty
  part: the zero-based page indices the part selects, or the \<^verbatim>\<open>ValueError\<close> it raises.
  \<open>start\<close> and \<open>stop\<close> are the source's \<^verbatim>\<open>start\<close> and \<^verbatim>\<open>end\<close>.
\<close>

definition range_indices :: "nat \<Rightarrow> string \<Rightarrow> error + nat list" where
  "range_indices num_pages part =
     (if CHR ''-'' \<in> set part then
        (let start_str = fst (split_once CHR ''-'' part);
             end_str = snd (split_once CHR ''-'' part)
         in case (if start_str \<noteq> [] then py_int start_str else Some 1) of
              None \<Rightarrow> Inl (ValueError ''invalid literal for int() with base 10'')
            | Some start \<Rightarrow>
               (case (if end_str \<noteq> [] then py_int end_str else Some (int num_pages)) of
                  None \<Rightarrow> Inl (ValueError ''invalid literal for int() with base 10'')
                | Some stop \<Rightarrow>
                    if \<not> (1 \<le> start \<and> start \<le> stop \<and> stop \<le> int num_pages)
                    then Inl (ValueError (''Range '' @ str_int start @ ''-'' @ str_int stop
                                @ '' out of bounds (1-'' @ str_int (int num_pages) @ '')''))
                    else Inr [nat (start - 1) ..< nat stop]))
      else
        (case py_int part of
           None \<Rightarrow> Inl (ValueError ''invalid literal for int() with base 10'')
         | Some page_num \<Rightarrow>
             if \<not> (1 \<le> page_num \<and> page_num \<le> int num_pages)
             then Inl (ValueError (''Page number '' @ str_int page_num
                         @ '' out of bounds (1-'' @ str_int (int num_pages) @ '')''))
             else Inr [nat (page_num - 1)]))"


section \<open>\<^verbatim>\<open>split_pdf\<close>\<close>




section \<open>\<^verbatim>\<open>rotate_pdf\<close>\<close>

text \<open>The loop over the parts of the page specification; a bad part aborts the request.\<close>

fun rotate_parts :: "nat \<Rightarrow> string list \<Rightarrow> error + nat list" where
  "rotate_parts num_pages [] = Inr []"
| "rotate_parts num_pages (raw_part # rest) =
     (let part = strip raw_part
      in if part = [] then rotate_parts num_pages rest
         else (case range_indices num_pages part of
                 Inl e \<Rightarrow> Inl (ValueError (''Invalid page specification '' @ part))
               | Inr idxs \<Rightarrow>
                  (case rotate_parts num_pages rest of
                     Inl e \<Rightarrow> Inl e
                   | Inr others \<Rightarrow> Inr (idxs @ others))))"

definition rotate_selection :: "nat \<Rightarrow> string \<Rightarrow> error + nat list" where
  "rotate_selection num_pages pages_str =
     (let pages_str_lower = lower (strip pages_str)
      in if pages_str_lower = ''all'' then Inr [0 ..< num_pages]
         else if pages_str_lower \<noteq> [] then rotate_parts num_pages (split_on CHR '','' pages_str_lower)
         else Inr [])"

definition rotate_pdf ::
  "'p engine \<Rightarrow> string \<Rightarrow> string \<Rightarrow> string \<Rightarrow> string \<Rightarrow> fs \<Rightarrow> (error + unit) \<times> fs" where
  "rotate_pdf eng in_path out_path pages_str angle files =
     (case py_int angle of
        None \<Rightarrow> (Inl (ValueError ''invalid literal for int() with base 10''), files)
      | Some a \<Rightarrow>
          if a mod 90 \<noteq> 0 then (Inl (ValueError ''Rotation angle must be a multiple of 90.''), files)
          else
            (case read_file files in_path of
               Inl e \<Rightarrow> (Inl e, files)
             | Inr content \<Rightarrow>
                (case read_pdf eng content of
                   Inl e \<Rightarrow> (Inl e, files)
                 | Inr pages \<Rightarrow>
                     if length pages = 0
                     then (Inl (ValueError ''Input PDF has no pages to rotate.''), files)
                     else
                       (case rotate_selection (length pages) pages_str of
                          Inl e \<Rightarrow> (Inl e, files)
                        | Inr rotate_indices \<Rightarrow>
                            (Inr (),
                             files(out_path \<mapsto> write_pdf eng
                               (map (\<lambda>(i, p). if i \<in> set rotate_indices then rotate_page eng a p else p)
                                    (enumerate 0 pages))))))))"

section \<open>\<^verbatim>\<open>merge_pdfs\<close>\<close>

definition endswith :: "string \<Rightarrow> string \<Rightarrow> bool" where
  "endswith suffix s = (length suffix \<le> length s \<and> drop (length s - length suffix) s = suffix)"

text \<open>\<^verbatim>\<open>sub in s\<close> for strings.\<close>

fun contains :: "string \<Rightarrow> string \<Rightarrow> bool" where
  "contains sub [] = (sub = [])"
| "contains sub (c # cs) = (take (length sub) (c # cs) = sub \<or> contains sub cs)"

text \<open>\<^verbatim>\<open>ZipInfo.is_dir()\<close>: the name ends with a slash.\<close>

definition is_dir :: "string \<Rightarrow> bool" where
  "is_dir name = (name \<noteq> [] \<and> last name = CHR ''/'')"

text \<open>The members the loop does not skip.\<close>

definition accepted_member :: "string \<Rightarrow> bool" where
  "accepted_member name =
     (\<not> (is_dir name \<or> \<not> endswith ''.pdf'' (lower name) \<or> contains ''../'' name))"

text \<open>
  \<^verbatim>\<open>zip_ref.open(member.filename)\<close> looks the member up by name; when several entries
  carry the same name, \<^verbatim>\<open>zipfile\<close> resolves the name to the last of them.
\<close>

definition zip_open :: "(string \<times> bytes option) list \<Rightarrow> string \<Rightarrow> bytes option" where
  "zip_open entries name =
     (case filter (\<lambda>e. fst e = name) entries of [] \<Rightarrow> None | e # es \<Rightarrow> snd (last (e # es)))"

text \<open>
  One round of the extraction loop. The state is the files, \<^verbatim>\<open>pdf_files_to_merge\<close>, and
  the names for which a warning was printed.
\<close>

definition extract_member ::
  "string \<Rightarrow> (string \<times> bytes option) list \<Rightarrow> fs \<times> string list \<times> string list
     \<Rightarrow> string \<times> bytes option \<Rightarrow> fs \<times> string list \<times> string list" where
  "extract_member temp_extract_dir entries st member =
     (case st of (files, pdf_files_to_merge, warns) \<Rightarrow>
        if \<not> accepted_member (fst member) then st
        else
          (let target_path = path_join temp_extract_dir (path_basename (fst member))
           in case zip_open entries (fst member) of
                None \<Rightarrow> (files, pdf_files_to_merge, warns @ [fst member])
              | Some data \<Rightarrow> (files(target_path \<mapsto> data), pdf_files_to_merge @ [target_path], warns)))"

definition extract_all ::
  "string \<Rightarrow> (string \<times> bytes option) list \<Rightarrow> fs \<Rightarrow> fs \<times> string list \<times> string list" where
  "extract_all temp_extract_dir entries files =
     foldl (extract_member temp_extract_dir entries) (files, [], []) entries"

text \<open>\<^verbatim>\<open>merger.append(pdf_path)\<close> inside its \<^verbatim>\<open>try\<close>: a file that cannot be read is skipped.\<close>

definition append_pdf :: "'p engine \<Rightarrow> fs \<Rightarrow> 'p list \<Rightarrow> string \<Rightarrow> 'p list" where
  "append_pdf eng files merged pdf_path =
     (case read_file files pdf_path of
        Inl e \<Rightarrow> merged
      | Inr content \<Rightarrow> (case read_pdf eng content of Inl e \<Rightarrow> merged | Inr ps \<Rightarrow> merged @ ps))"

text \<open>\<^verbatim>\<open>shutil.rmtree(temp_extract_dir, ignore_errors=True)\<close>.\<close>

definition rmtree :: "string \<Rightarrow> fs \<Rightarrow> fs" where
  "rmtree d files = (\<lambda>p. if take (length (path_join d [])) p = path_join d [] \<and> d \<noteq> [] then None else files p)"

text \<open>
  The sorted list \<^verbatim>\<open>pdf_files_to_merge\<close> that the merger is run on (after
  \<^verbatim>\<open>pdf_files_to_merge.sort()\<close>), for the members of an archive.
\<close>

definition merge_order :: "string \<Rightarrow> (string \<times> bytes option) list \<Rightarrow> fs \<Rightarrow> string list" where
  "merge_order temp_extract_dir entries files =
     sort (fst (snd (extract_all temp_extract_dir entries files)))"

text \<open>
  The body of \<^verbatim>\<open>merge_pdfs\<close> once the archive is open: extraction, the sort, the merge,
  the output file, and the removal of the extraction directory.
\<close>

definition merge_members ::
  "'p engine \<Rightarrow> string \<Rightarrow> string \<Rightarrow> (string \<times> bytes option) list \<Rightarrow> fs \<Rightarrow> (error + unit) \<times> fs" where
  "merge_members eng temp_extract_dir out_path entries files =
     (let files1 = fst (extract_all temp_extract_dir entries files);
          pdf_files_to_merge = merge_order temp_extract_dir entries files
      in if pdf_files_to_merge = []
         then (Inl (ValueError ''No valid PDF files found or extracted from the zip archive.''),
               rmtree temp_extract_dir files1)
         else
           (let merged = foldl (append_pdf eng files1) [] pdf_files_to_merge
            in if length merged = 0
               then (Inl (PyException ''Merging resulted in an empty PDF. Check input files and logs.''),
                     rmtree temp_extract_dir files1)
               else (Inr (), rmtree temp_extract_dir (files1(out_path \<mapsto> write_pdf eng merged)))))"

definition merge_pdfs ::
  "'p engine \<Rightarrow> string \<Rightarrow> nat \<Rightarrow> string \<Rightarrow> string \<Rightarrow> fs \<Rightarrow> (error + unit) \<times> fs" where
  "merge_pdfs eng temp_dir pid input_zip_path out_path files =
     (let temp_extract_dir = merge_extract_dir temp_dir pid out_path
      in case read_file files input_zip_path of
           Inl e \<Rightarrow> (Inl e, rmtree temp_extract_dir files)
         | Inr content \<Rightarrow>
            (case zip_entries eng content of
               Inl e \<Rightarrow> (Inl e, rmtree temp_extract_dir files)
             | Inr entries \<Rightarrow> merge_members eng temp_extract_dir out_path entries files))"



section \<open>What a ranges string selects, part by part\<close>






section \<open>A small engine for examples\<close>

text \<open>
  A concrete engine in which a document is the string of its pages (one character per
  page, an empty file does not parse), used to run the model on explicit inputs.
\<close>

definition sample_engine :: "char engine" where
  "sample_engine =
     \<lparr> read_pdf = (\<lambda>b. if b = [] then Inl (PyException ''EmptyFileError'') else Inr b),
       write_pdf = (\<lambda>ps. ps),
       rotate_page = (\<lambda>a p. p),
       zip_entries = (\<lambda>b. Inl (PyException ''BadZipFile'')),
       zip_write = (\<lambda>es. concat (map snd es)),
       convert_pdf_to_jpg = (\<lambda>b. Inl (PyException ''unsupported'')),
       process_external = (\<lambda>action ext b opt. Inr (Some b)) \<rparr>"

section \<open>The connection\<close>

text \<open>
  One end of the TCP connection, as the program at that end sees it. What the peer and
  the network will deliver is a script: each item is either bytes that arrive or an
  exception that the next \<^verbatim>\<open>recv\<close> raises (a timeout or a reset). An exhausted script is
  a connection closed by the peer: \<^verbatim>\<open>recv\<close> returns the empty byte string. The log records
  every \<^verbatim>\<open>sendall\<close> and every \<^verbatim>\<open>recv\<close> in program order. The files are the local files of
  the program (the disk of the client, the temporary directory of the server).
\<close>

datatype net_event = Data bytes | Fault error

datatype io_event = Sent bytes | Recvd nat bytes | RecvFailed nat error

record conn =
  inq :: "net_event list"
  log :: "io_event list"
  files :: fs

type_synonym 'a io = "conn \<Rightarrow> (error + 'a) \<times> conn"

definition io_return :: "'a \<Rightarrow> 'a io" where
  "io_return x s = (Inr x, s)"

definition io_raise :: "error \<Rightarrow> 'a io" where
  "io_raise e s = (Inl e, s)"

definition io_bind :: "'a io \<Rightarrow> ('a \<Rightarrow> 'b io) \<Rightarrow> 'b io" where
  "io_bind m f s = (case m s of (Inl e, s') \<Rightarrow> (Inl e, s') | (Inr x, s') \<Rightarrow> f x s')"

text \<open>\<^verbatim>\<open>sock.sendall(data)\<close>.\<close>

definition sendall :: "bytes \<Rightarrow> unit io" where
  "sendall d s = (Inr (), s\<lparr>log := log s @ [Sent d]\<rparr>)"

text \<open>
  \<^verbatim>\<open>sock.recv(bufsize)\<close>: at most \<^verbatim>\<open>bufsize\<close> bytes of what has arrived; the rest stays
  queued for the next call.
\<close>

definition recv :: "nat \<Rightarrow> bytes io" where
  "recv bufsize s =
     (case inq s of
        [] \<Rightarrow> (Inr [], s\<lparr>log := log s @ [Recvd bufsize []]\<rparr>)
      | Fault e # rest \<Rightarrow> (Inl e, s\<lparr>inq := rest, log := log s @ [RecvFailed bufsize e]\<rparr>)
      | Data d # rest \<Rightarrow>
          if length d \<le> bufsize
          then (Inr d, s\<lparr>inq := rest, log := log s @ [Recvd bufsize d]\<rparr>)
          else (Inr (take bufsize d),
                s\<lparr>inq := Data (drop bufsize d) # rest, log := log s @ [Recvd bufsize (take bufsize d)]\<rparr>))"

text \<open>Writing a file: \<^verbatim>\<open>with open(path, "wb") as f: f.write(data)\<close>.\<close>

definition write_file :: "string \<Rightarrow> bytes \<Rightarrow> unit io" where
  "write_file p d s = (Inr (), s\<lparr>files := (files s)(p \<mapsto> d)\<rparr>)"

text \<open>
  The sending loop of both programs:
  \<^verbatim>\<open>while True: chunk = f.read(65536); if not chunk: break; sock.sendall(chunk)\<close>.
\<close>

function file_chunks :: "nat \<Rightarrow> bytes \<Rightarrow> bytes list" where
  "file_chunks n content =
     (if content = [] \<or> n = 0 then [] else take n content # file_chunks n (drop n content))"
  by pat_completeness auto
termination
  by (relation "measure (\<lambda>(n, content). length content)") auto

declare file_chunks.simps [simp del]

fun send_chunks :: "bytes list \<Rightarrow> unit io" where
  "send_chunks [] = io_return ()"
| "send_chunks (chunk # rest) = io_bind (sendall chunk) (\<lambda>_. send_chunks rest)"

definition send_file_data :: "bytes \<Rightarrow> unit io" where
  "send_file_data content = send_chunks (file_chunks 65536 content)"

text \<open>
  The receiving loop of both programs:
  \<^verbatim>\<open>while received_bytes < size: chunk = sock.recv(min(65536, size - received_bytes)); if not chunk: raise ConnectionAbortedError(...); data += chunk; received_bytes += len(chunk)\<close>
  (\<open>expected_size\<close> is the source's \<^verbatim>\<open>size\<close> or \<^verbatim>\<open>output_size\<close>). The result is the data received so far and the exception, if one ended the loop.
\<close>

function recv_data :: "int \<Rightarrow> int \<Rightarrow> bytes \<Rightarrow> conn \<Rightarrow> (error option \<times> bytes) \<times> conn" where
  "recv_data expected_size received_bytes data s =
     (if received_bytes < expected_size then
        (case recv (nat (min 65536 (expected_size - received_bytes))) s of
           (Inl e, s') \<Rightarrow> ((Some e, data), s')
         | (Inr chunk, s') \<Rightarrow>
             if chunk = [] then ((Some (ConnectionAbortedError ''disconnected during transfer''), data), s')
             else recv_data expected_size (received_bytes + int (length chunk)) (data @ chunk) s')
      else ((None, data), s))"
  by pat_completeness auto
termination
  by (relation "measure (\<lambda>(expected_size, received_bytes, data, s). nat (expected_size - received_bytes))") auto

declare recv_data.simps [simp del]

text \<open>The bytes a log shows as received.\<close>

fun received :: "io_event list \<Rightarrow> bytes list" where
  "received [] = []"
| "received (Recvd n d # es) = d # received es"
| "received (e # es) = received es"

section \<open>The client: \<^verbatim>\<open>send_request_to_server\<close>\<close>

text \<open>
  The model starts when \<^verbatim>\<open>sock.connect\<close> has succeeded. \<^verbatim>\<open>file_path_or_paths\<close> is one path
  or a list of paths; \<^verbatim>\<open>options\<close> is the dictionary of the option dialogs, a missing key
  being \<open>None\<close>. The archive writer of \<^verbatim>\<open>zipfile\<close> and the answer of the save dialog
  (empty when the user cancels) are parameters.
\<close>

datatype file_arg = OnePath string | ManyPaths "string list"

record client_options =
  opt_password :: "string option"
  opt_ranges :: "string option"
  opt_pages :: "string option"
  opt_angle :: "int option"
  opt_position :: "string option"

text \<open>
  \<^verbatim>\<open>ack = sock.recv(1024); if ack != b'ACK_...': raise ConnectionAbortedError("...")\<close>
\<close>

definition expect_ack :: "bytes \<Rightarrow> string \<Rightarrow> unit io" where
  "expect_ack token msg =
     io_bind (recv 1024) (\<lambda>ack.
       if ack \<noteq> token then io_raise (ConnectionAbortedError msg) else io_return ())"

text \<open>
  ``Prepare File Info'': what to send and under which name. For \<^verbatim>\<open>merge\<close> the existing
  files are zipped under their base names; the temporary archive is read back for
  sending and removed at the end, so the model passes its content on directly.
\<close>

definition prepare_file ::
  "((string \<times> bytes) list \<Rightarrow> bytes) \<Rightarrow> string \<Rightarrow> file_arg \<Rightarrow> fs \<Rightarrow> error + bytes \<times> string" where
  "prepare_file make_zip action arg disk =
     (if action = ''merge'' then
        (case arg of
           OnePath p \<Rightarrow> Inl (ValueError ''Merge action requires at least two files.'')
         | ManyPaths ps \<Rightarrow>
             if length ps < 2 then Inl (ValueError ''Merge action requires at least two files.'')
             else
               (let valid = List.map_filter (\<lambda>p. map_option (Pair (path_basename p)) (disk p)) ps;
                    valid_files_count = length valid
                in if valid_files_count < 2
                   then Inl (ValueError (''Merge requires at least two valid files (found ''
                                @ str_int (int valid_files_count) @ '').''))
                   else Inr (make_zip valid,
                             ''merge_input_'' @ str_int (int valid_files_count) @ ''files.zip'')))
      else
        (case arg of
           ManyPaths ps \<Rightarrow> Inl (ValueError ''Input file not found or invalid'')
         | OnePath p \<Rightarrow>
            (case disk p of
               None \<Rightarrow> Inl (ValueError ''Input file not found or invalid'')
             | Some content \<Rightarrow> Inr (content, path_basename p))))"

text \<open>``4. Send Extra Options (if required by action)''.\<close>

definition send_options :: "string \<Rightarrow> client_options \<Rightarrow> unit io" where
  "send_options action options =
     (if action = ''encrypt'' \<or> action = ''decrypt'' then
        (case opt_password options of
           None \<Rightarrow> io_raise (ValueError ''Password not provided for encrypt/decrypt.'')
         | Some password \<Rightarrow>
             io_bind (sendall password) (\<lambda>_.
             expect_ack ''ACK_PASS'' ''Invalid ACK after sending password.''))
      else if action = ''split'' then
        (case opt_ranges options of
           None \<Rightarrow> io_raise (ValueError ''Split ranges not provided.'')
         | Some ranges_str \<Rightarrow>
             if ranges_str = [] then io_raise (ValueError ''Split ranges not provided.'')
             else
               io_bind (sendall ranges_str) (\<lambda>_.
               expect_ack ''ACK_RANGES'' ''Invalid ACK after sending ranges.''))
      else if action = ''rotate'' then
        (let angle_str = (case opt_angle options of None \<Rightarrow> ''None'' | Some a \<Rightarrow> str_int a)
         in case opt_pages options of
              None \<Rightarrow> io_raise (ValueError ''Rotation pages/angle not provided.'')
            | Some pages_str \<Rightarrow>
                if pages_str = [] \<or> angle_str = []
                then io_raise (ValueError ''Rotation pages/angle not provided.'')
                else
                  io_bind (sendall pages_str) (\<lambda>_.
                  io_bind (expect_ack ''ACK_PAGES'' ''Invalid ACK after sending pages.'') (\<lambda>_.
                  io_bind (sendall angle_str) (\<lambda>_.
                  expect_ack ''ACK_ANGLE'' ''Invalid ACK after sending angle.''))))
      else if action = ''add_numbers'' then
        (case opt_position options of
           None \<Rightarrow> io_raise (ValueError ''Page number position not provided.'')
         | Some position \<Rightarrow>
             if position = [] then io_raise (ValueError ''Page number position not provided.'')
             else
               io_bind (sendall position) (\<lambda>_.
               expect_ack ''ACK_POSITION'' ''Invalid ACK after sending position.''))
      else io_return ())"

text \<open>``7. Receive Output File Data'': the loop, whose data is lost when it raises.\<close>

definition recv_result :: "int \<Rightarrow> bytes io" where
  "recv_result output_size s =
     (case recv_data output_size 0 [] s of
        ((Some e, d), s') \<Rightarrow> (Inl e, s')
      | ((None, d), s') \<Rightarrow> (Inr d, s'))"

text \<open>The three ways the \<^verbatim>\<open>try\<close> block returns: \<^verbatim>\<open>True\<close>, \<^verbatim>\<open>True\<close> and \<^verbatim>\<open>False\<close>.\<close>

datatype client_ok = Saved string | EmptyResult | SaveCancelled

text \<open>``Receive Result'' and ``Save Result''.\<close>

definition receive_result :: "(string \<Rightarrow> string) \<Rightarrow> client_ok io" where
  "receive_result asksaveasfilename =
     io_bind (recv 1024) (\<lambda>output_filename_suggestion.
       if output_filename_suggestion = []
       then io_raise (ConnectionAbortedError ''Server disconnected before sending output filename.'')
       else
         io_bind (sendall ''ACK_OUT_FILENAME'') (\<lambda>_.
         io_bind (recv 16) (\<lambda>output_size_bytes.
           if output_size_bytes = []
           then io_raise (ConnectionAbortedError ''Server disconnected before sending output size.'')
           else
             (case decode_size output_size_bytes of
                None \<Rightarrow> io_raise (ValueError ''invalid literal for int() with base 10'')
              | Some output_size \<Rightarrow>
                  io_bind (sendall ''ACK_OUT_SIZE'') (\<lambda>_.
                    if output_size = 0 \<and> contains ''error_'' (lower output_filename_suggestion) then
                      io_bind (recv 4096) (\<lambda>error_msg.
                        io_raise (PyException
                          (if error_msg \<noteq> [] then ''Server Error: '' @ error_msg
                           else ''Server indicated an error ('' @ output_filename_suggestion @ '').'')))
                    else if output_size = 0 then io_return EmptyResult
                    else
                      io_bind (recv_result output_size) (\<lambda>output_data.
                        (let save_path = asksaveasfilename output_filename_suggestion
                         in if save_path \<noteq> []
                            then io_bind (write_file save_path output_data) (\<lambda>_. io_return (Saved save_path))
                            else io_return SaveCancelled)))))))"

text \<open>Steps 1 to 4: the request, each field gated by its acknowledgement.\<close>

definition send_request ::
  "((string \<times> bytes) list \<Rightarrow> bytes) \<Rightarrow> string \<Rightarrow> file_arg \<Rightarrow> client_options \<Rightarrow> unit io" where
  "send_request make_zip action arg options =
     io_bind (sendall action) (\<lambda>_.
     io_bind (expect_ack ''ACK_ACTION'' ''Invalid ACK after sending action.'') (\<lambda>_.
     (\<lambda>s. case prepare_file make_zip action arg (files s) of
             Inl e \<Rightarrow> (Inl e, s)
           | Inr (content, filename_for_server) \<Rightarrow>
               (io_bind (sendall filename_for_server) (\<lambda>_.
                io_bind (expect_ack ''ACK_FILENAME'' ''Invalid ACK after sending filename.'') (\<lambda>_.
                io_bind (sendall (encode_size (int (length content)))) (\<lambda>_.
                io_bind (expect_ack ''ACK_SIZE'' ''Invalid ACK after sending size.'') (\<lambda>_.
                io_bind (send_file_data content) (\<lambda>_.
                send_options action options)))))) s)))"

text \<open>The body of the \<^verbatim>\<open>try\<close> block.\<close>

definition client_session ::
  "((string \<times> bytes) list \<Rightarrow> bytes) \<Rightarrow> (string \<Rightarrow> string) \<Rightarrow> string \<Rightarrow> file_arg
     \<Rightarrow> client_options \<Rightarrow> client_ok io" where
  "client_session make_zip asksaveasfilename action arg options =
     io_bind (send_request make_zip action arg options) (\<lambda>_. receive_result asksaveasfilename)"

text \<open>
  The whole function: every exception is caught, reported in a dialog, and turned into
  \<^verbatim>\<open>False\<close>. The result is the returned value, the exception caught (if any), and the
  final state.
\<close>

definition send_request_to_server ::
  "((string \<times> bytes) list \<Rightarrow> bytes) \<Rightarrow> (string \<Rightarrow> string) \<Rightarrow> string \<Rightarrow> file_arg
     \<Rightarrow> client_options \<Rightarrow> conn \<Rightarrow> bool \<times> error option \<times> conn" where
  "send_request_to_server make_zip asksaveasfilename action arg options s =
     (case client_session make_zip asksaveasfilename action arg options s of
        (Inr (Saved p), s') \<Rightarrow> (True, None, s')
      | (Inr EmptyResult, s') \<Rightarrow> (True, None, s')
      | (Inr SaveCancelled, s') \<Rightarrow> (False, None, s')
      | (Inl e, s') \<Rightarrow> (False, Some e, s'))"

text \<open>The acknowledgements the request waits for, in order, for an action.\<close>

definition option_acks :: "string \<Rightarrow> bytes list" where
  "option_acks action =
     (if action = ''encrypt'' \<or> action = ''decrypt'' then [''ACK_PASS'']
      else if action = ''split'' then [''ACK_RANGES'']
      else if action = ''rotate'' then [''ACK_PAGES'', ''ACK_ANGLE'']
      else if action = ''add_numbers'' then [''ACK_POSITION'']
      else [])"

definition ack_plan :: "string \<Rightarrow> bytes list" where
  "ack_plan action = [''ACK_ACTION'', ''ACK_FILENAME'', ''ACK_SIZE''] @ option_acks action"

section \<open>Acknowledgement phases\<close>

text \<open>
  A way to say what a piece of the client has received when it ends, for a piece that
  waits for the acknowledgements \<open>toks\<close> in this order and receives nothing else. \<open>R\<close> is
  what had been received before. Either it ends normally and has received all of
  \<open>toks\<close>; or it raises between two waits (a local check, or an exception of \<^verbatim>\<open>recv\<close>)
  having received some of them, all as expected; or the reply to the \<open>j\<close>-th wait differs from
  the expected one, that reply is the last thing that happened on the connection, and the
  exception is \<^verbatim>\<open>ConnectionAbortedError\<close>.
\<close>

definition ack_outcome :: "bytes list \<Rightarrow> bytes list \<Rightarrow> (error + 'a) \<times> conn \<Rightarrow> bool" where
  "ack_outcome R toks rs =
     (case rs of (r, s') \<Rightarrow>
        (case r of
           Inr x \<Rightarrow> received (log s') = R @ toks
         | Inl e \<Rightarrow>
             (\<exists>j \<le> length toks. received (log s') = R @ take j toks)
             \<or> (\<exists>j < length toks. \<exists>bad. bad \<noteq> toks ! j
                    \<and> received (log s') = R @ take j toks @ [bad]
                    \<and> log s' \<noteq> [] \<and> last (log s') = Recvd 1024 bad
                    \<and> (\<exists>msg. e = ConnectionAbortedError msg))))"

definition ack_phase :: "'a io \<Rightarrow> bytes list \<Rightarrow> bool" where
  "ack_phase m toks = (\<forall>s. ack_outcome (received (log s)) toks (m s))"

text \<open>A piece of a program that writes no file.\<close>

definition keeps_files :: "'a io \<Rightarrow> bool" where
  "keeps_files m = (\<forall>s. files (snd (m s)) = files s)"

section \<open>Decimal strings\<close>






lemma dec_nat_nonempty: "dec_nat n \<noteq> []"
  by (subst dec_nat.simps) simp


section \<open>Properties of the size field\<close>

lemma length_dec_nat_le: "n < 10 ^ k \<Longrightarrow> 0 < k \<Longrightarrow> length (dec_nat n) \<le> k"
proof (induction n arbitrary: k rule: dec_nat.induct)
  case (1 n)
  show ?case
  proof (cases "n < 10")
    case True
    then show ?thesis using "1.prems" by (simp add: dec_nat.simps)
  next
    case False
    then obtain j where k: "k = Suc j" and j: "0 < j"
      using "1.prems" by (cases k; cases "k - 1") auto
    have "n div 10 < 10 ^ j" using "1.prems" k by (simp add: less_mult_imp_div_less mult.commute)
    then have "length (dec_nat (n div 10)) \<le> j" using "1.IH" False j by simp
    then show ?thesis using False k by (simp add: dec_nat.simps [of n])
  qed
qed

text \<open>
  Claim C1, as the code has it. For every payload size \<open>n\<close> with \<open>0 \<le> n < 10^16\<close> the
  size field sent on the wire is exactly 16 bytes long and is the decimal ASCII string
  of \<open>n\<close> followed by space padding on the right (the field is left-justified).
\<close>

theorem encode_size_right_padded:
  assumes "0 \<le> n" and "n < 10 ^ 16"
  shows "length (encode_size n) = 16
       \<and> encode_size n = str_int n @ replicate (16 - length (str_int n)) CHR '' ''
       \<and> take (length (str_int n)) (encode_size n) = str_int n"
proof -
  have "nat n < 10 ^ 16" using assms by (simp add: nat_less_iff)
  then have "length (dec_nat (nat n)) \<le> 16" by (rule length_dec_nat_le) simp
  then have "length (str_int n) \<le> 16" using assms by (simp add: str_int_def)
  then show ?thesis by (simp add: encode_size_def ljust_def)
qed

theorem encode_size_right_padded_witness:
  "(0::int) \<le> 65537 \<and> (65537::int) < 10 ^ 16
   \<and> length (encode_size 65537) = 16
   \<and> encode_size 65537 = ''65537           ''"
proof -
  have a: "(0::int) \<le> 65537" and b: "(65537::int) < 10 ^ 16" by simp_all
  have s: "str_int 65537 = ''65537''" by (simp add: str_int_def dec_nat.simps digit_char_def)
  show ?thesis using encode_size_right_padded [OF a b] a b s by (simp add: eval_nat_numeral)
qed

text \<open>
  The claim as the specification words it (padding on the left) fails already for a
  one-digit size: the client sends the digit first and fifteen spaces after it, which is
  neither the space-padded nor the zero-padded right-justified field.
\<close>

theorem encode_size_left_padded_counterexample:
  "encode_size 5 = ''5               ''
   \<and> encode_size 5 \<noteq> left_padded CHR '' '' 16 (str_int 5)
   \<and> encode_size 5 \<noteq> left_padded CHR ''0'' 16 (str_int 5)"
  by (simp add: encode_size_def ljust_def left_padded_def str_int_def dec_nat.simps digit_char_def
      eval_nat_numeral)

section \<open>The split loop\<close>










lemma split_example_parts: "split_on CHR '','' ''1-3,5,7-'' = [''1-3'', ''5'', ''7-'']"
  by simp







section \<open>Rotation angles\<close>

text \<open>
  Claim C8. A rotate request whose angle option is an integer that is not a multiple of 90
  is rejected with the \<^verbatim>\<open>ValueError\<close> ``Rotation angle must be a multiple of 90.'': the
  result does not depend on the engine (no document is opened), and the files are left
  as they were, so no output file is written.
\<close>

theorem rotate_pdf_rejects_angle:
  assumes "py_int angle = Some a" and "a mod 90 \<noteq> 0"
  shows "rotate_pdf eng in_path out_path pages_str angle disk
           = (Inl (ValueError ''Rotation angle must be a multiple of 90.''), disk)
         \<and> rotate_pdf eng in_path out_path pages_str angle disk
           = rotate_pdf eng' in_path out_path pages_str angle disk
         \<and> snd (rotate_pdf eng in_path out_path pages_str angle disk) out_path = disk out_path"
  using assms by (simp add: rotate_pdf_def)

theorem rotate_pdf_rejects_angle_witness:
  "py_int ''45'' = Some 45 \<and> (45::int) mod 90 \<noteq> 0
   \<and> rotate_pdf sample_engine ''in.pdf'' ''out.pdf'' ''all'' ''45'' [''in.pdf'' \<mapsto> ''abc'']
       = (Inl (ValueError ''Rotation angle must be a multiple of 90.''), [''in.pdf'' \<mapsto> ''abc''])
   \<and> snd (rotate_pdf sample_engine ''in.pdf'' ''out.pdf'' ''all'' ''45'' [''in.pdf'' \<mapsto> ''abc'']) ''out.pdf''
       = None"
proof -
  have a: "py_int ''45'' = Some 45"
    by (simp add: py_int_def strip_def is_space_def parse_unsigned_def is_digit_def digit_val_def)
  have b: "(45::int) mod 90 \<noteq> 0" by simp
  show ?thesis
    using rotate_pdf_rejects_angle [OF a b, of sample_engine "''in.pdf''" "''out.pdf''" "''all''"
        "[''in.pdf'' \<mapsto> ''abc'']" sample_engine] a b
    by simp
qed

section \<open>Extraction of a merge archive\<close>















section \<open>The order of the merge\<close>




















section \<open>Process ids in temporary names\<close>































section \<open>Facts about the connection\<close>

lemma received_append: "received (xs @ ys) = received xs @ received ys"
  by (induction xs rule: received.induct) simp_all

lemma received_map_Sent: "received (map Sent cs) = []"
  by (induction cs) simp_all

lemma send_chunks_eq: "send_chunks cs s = (Inr (), s\<lparr>log := log s @ map Sent cs\<rparr>)"
  by (induction cs arbitrary: s) (simp_all add: io_return_def io_bind_def sendall_def)

lemma send_file_data_eq:
  "send_file_data content s = (Inr (), s\<lparr>log := log s @ map Sent (file_chunks 65536 content)\<rparr>)"
  by (simp add: send_file_data_def send_chunks_eq)

lemma recv_cases:
  assumes "recv n s = (r, s')"
  obtains (closed) "inq s = []" "r = Inr []" "s' = s\<lparr>log := log s @ [Recvd n []]\<rparr>"
    | (fault) e rest where "inq s = Fault e # rest" "r = Inl e"
        "s' = s\<lparr>inq := rest, log := log s @ [RecvFailed n e]\<rparr>"
    | (data) d rest where "inq s = Data d # rest" "r = Inr (take n d)"
        "s' = s\<lparr>inq := (if length d \<le> n then rest else Data (drop n d) # rest),
                log := log s @ [Recvd n (take n d)]\<rparr>"
  using assms by (auto simp: recv_def split: list.splits net_event.splits if_splits)

lemma recv_length: "recv n s = (Inr chunk, s') \<Longrightarrow> length chunk \<le> n"
  by (erule recv_cases) auto

lemma recv_files: "recv n s = (r, s') \<Longrightarrow> files s' = files s"
  by (erule recv_cases) auto

lemma recv_log:
  "recv n s = (r, s') \<Longrightarrow>
     log s' = log s @ [case r of Inr d \<Rightarrow> Recvd n d | Inl e \<Rightarrow> RecvFailed n e]"
  by (erule recv_cases) auto

section \<open>Acknowledgement phases of the client\<close>

lemma phase_return: "ack_phase (io_return x) []"
  by (simp add: ack_phase_def ack_outcome_def io_return_def)

lemma phase_raise: "ack_phase (io_raise e) toks"
  unfolding ack_phase_def ack_outcome_def io_raise_def by (auto intro!: exI [of _ 0])

lemma phase_sendall: "ack_phase (sendall d) []"
  by (simp add: ack_phase_def ack_outcome_def sendall_def received_append)

lemma phase_send_file_data: "ack_phase (send_file_data c) []"
  by (simp add: ack_phase_def ack_outcome_def send_file_data_eq received_append received_map_Sent)

lemma phase_expect_ack: "ack_phase (expect_ack tok msg) [tok]"
proof -
  have "ack_outcome (received (log s)) [tok] (expect_ack tok msg s)" for s
  proof -
    obtain r s' where rs: "recv 1024 s = (r, s')" by (cases "recv 1024 s")
    from rs show ?thesis
    proof (cases rule: recv_cases)
      case closed
      then show ?thesis using rs
        by (cases "tok = []")
           (auto simp: ack_outcome_def expect_ack_def io_bind_def io_raise_def io_return_def received_append)
    next
      case (fault e rest)
      then show ?thesis using rs
        by (auto simp: ack_outcome_def expect_ack_def io_bind_def io_raise_def io_return_def received_append
              intro!: exI [of _ 0])
    next
      case (data d rest)
      then show ?thesis using rs
        by (cases "take 1024 d = tok")
           (auto simp: ack_outcome_def expect_ack_def io_bind_def io_raise_def io_return_def received_append)
    qed
  qed
  then show ?thesis by (simp add: ack_phase_def)
qed

lemma ack_outcome_InrI: "received (log s') = R @ toks \<Longrightarrow> ack_outcome R toks (Inr x, s')"
  by (simp add: ack_outcome_def)

lemma ack_outcome_stopI:
  "j \<le> length toks \<Longrightarrow> received (log s') = R @ take j toks \<Longrightarrow> ack_outcome R toks (Inl e, s')"
  unfolding ack_outcome_def by auto

lemma ack_outcome_badI:
  "j < length toks \<Longrightarrow> bad \<noteq> toks ! j \<Longrightarrow> received (log s') = R @ take j toks @ [bad] \<Longrightarrow>
   log s' \<noteq> [] \<Longrightarrow> last (log s') = Recvd 1024 bad \<Longrightarrow>
   ack_outcome R toks (Inl (ConnectionAbortedError msg), s')"
  unfolding ack_outcome_def by auto

lemma ack_outcome_InlE:
  assumes "ack_outcome R toks (Inl e, s')"
  obtains (stop) j where "j \<le> length toks" "received (log s') = R @ take j toks"
    | (bad) j bad msg where "j < length toks" "bad \<noteq> toks ! j"
        "received (log s') = R @ take j toks @ [bad]" "log s' \<noteq> []"
        "last (log s') = Recvd 1024 bad" "e = ConnectionAbortedError msg"
  using assms unfolding ack_outcome_def by auto

lemma ack_outcome_InrD: "ack_outcome R toks (Inr x, s') \<Longrightarrow> received (log s') = R @ toks"
  by (simp add: ack_outcome_def)

lemma ack_phaseD: "ack_phase m toks \<Longrightarrow> m (s :: conn) = rs \<Longrightarrow> ack_outcome (received (log s)) toks rs"
  by (auto simp: ack_phase_def)

lemma phase_bind:
  assumes m: "ack_phase m t1" and f: "\<And>x. ack_phase (f x) t2"
  shows "ack_phase (io_bind m f) (t1 @ t2)"
  unfolding ack_phase_def
proof
  fix s :: conn
  let ?R = "received (log s)"
  obtain r1 s1 where ms: "m s = (r1, s1)" by (cases "m s")
  have o1: "ack_outcome ?R t1 (r1, s1)" using m ms by (rule ack_phaseD)
  show "ack_outcome ?R (t1 @ t2) (io_bind m f s)"
  proof (cases r1)
    case (Inl e)
    then have b: "io_bind m f s = (Inl e, s1)" using ms by (simp add: io_bind_def)
    from o1 [unfolded Inl] show ?thesis unfolding b
    proof (cases rule: ack_outcome_InlE)
      case (stop j)
      have "received (log s1) = ?R @ take j (t1 @ t2)" using stop by simp
      moreover have "j \<le> length (t1 @ t2)" using stop by simp
      ultimately show "ack_outcome ?R (t1 @ t2) (Inl e, s1)" by (rule ack_outcome_stopI [rotated])
    next
      case (bad j bad msg)
      have 1: "j < length (t1 @ t2)" and 2: "bad \<noteq> (t1 @ t2) ! j"
        and 3: "received (log s1) = ?R @ take j (t1 @ t2) @ [bad]"
        using bad by (simp_all add: nth_append)
      show "ack_outcome ?R (t1 @ t2) (Inl e, s1)"
        unfolding bad(6) using 1 2 3 bad(4) bad(5) by (rule ack_outcome_badI)
    qed
  next
    case (Inr x)
    then have b: "io_bind m f s = f x s1" using ms by (simp add: io_bind_def)
    have r1: "received (log s1) = ?R @ t1" using o1 [unfolded Inr] by (rule ack_outcome_InrD)
    obtain r2 s2 where fs: "f x s1 = (r2, s2)" by (cases "f x s1")
    have "ack_outcome (received (log s1)) t2 (r2, s2)" using f fs by (rule ack_phaseD)
    then have o2: "ack_outcome (?R @ t1) t2 (r2, s2)" by (simp only: r1)
    show ?thesis unfolding b fs
    proof (cases r2)
      case (Inr y)
      have "received (log s2) = (?R @ t1) @ t2" using o2 [unfolded Inr] by (rule ack_outcome_InrD)
      then show "ack_outcome ?R (t1 @ t2) (r2, s2)" unfolding Inr by (intro ack_outcome_InrI) simp
    next
      case (Inl e)
      from o2 [unfolded Inl] show "ack_outcome ?R (t1 @ t2) (r2, s2)" unfolding Inl
      proof (cases rule: ack_outcome_InlE)
        case (stop j)
        have "received (log s2) = ?R @ take (length t1 + j) (t1 @ t2)" using stop by simp
        moreover have "length t1 + j \<le> length (t1 @ t2)" using stop by simp
        ultimately show "ack_outcome ?R (t1 @ t2) (Inl e, s2)" by (rule ack_outcome_stopI [rotated])
      next
        case (bad j bad msg)
        have 1: "length t1 + j < length (t1 @ t2)" and 2: "bad \<noteq> (t1 @ t2) ! (length t1 + j)"
          and 3: "received (log s2) = ?R @ take (length t1 + j) (t1 @ t2) @ [bad]"
          using bad by (simp_all add: nth_append)
        show "ack_outcome ?R (t1 @ t2) (Inl e, s2)"
          unfolding bad(6) using 1 2 3 bad(4) bad(5) by (rule ack_outcome_badI)
      qed
    qed
  qed
qed

lemma phase_send_ack: "ack_phase (io_bind (sendall d) (\<lambda>_. expect_ack tok msg)) [tok]"
  using phase_bind [OF phase_sendall, of "\<lambda>_. expect_ack tok msg" "[tok]" d] phase_expect_ack
  by simp

lemma phase_send_then:
  assumes "ack_phase m toks"
  shows "ack_phase (io_bind (sendall d) (\<lambda>_. m)) toks"
  using phase_bind [OF phase_sendall, of "\<lambda>_. m" toks d] assms by simp

lemma phase_ack_then:
  assumes "ack_phase m toks"
  shows "ack_phase (io_bind (expect_ack tok msg) (\<lambda>_. m)) (tok # toks)"
  using phase_bind [OF phase_expect_ack, of "\<lambda>_. m" toks tok msg] assms by simp

lemma phase_send_options: "ack_phase (send_options action options) (option_acks action)"
proof -
  consider (pw) "action = ''encrypt'' \<or> action = ''decrypt''"
    | (split) "action = ''split''" | (rotate) "action = ''rotate''"
    | (numbers) "action = ''add_numbers''"
    | (other) "action \<noteq> ''encrypt''" "action \<noteq> ''decrypt''" "action \<noteq> ''split''"
        "action \<noteq> ''rotate''" "action \<noteq> ''add_numbers''"
    by blast
  then show ?thesis
  proof cases
    case pw
    then have a: "option_acks action = [''ACK_PASS'']" by (auto simp: option_acks_def)
    show ?thesis unfolding a using pw
      by (cases "opt_password options") (auto simp: send_options_def phase_raise phase_send_ack)
  next
    case split
    then have a: "option_acks action = [''ACK_RANGES'']" by (simp add: option_acks_def)
    show ?thesis unfolding a using split
      by (cases "opt_ranges options") (auto simp: send_options_def phase_raise phase_send_ack)
  next
    case rotate
    then have a: "option_acks action = [''ACK_PAGES'', ''ACK_ANGLE'']" by (simp add: option_acks_def)
    have r: "ack_phase (io_bind (sendall p) (\<lambda>_.
                  io_bind (expect_ack ''ACK_PAGES'' m1) (\<lambda>_.
                  io_bind (sendall g) (\<lambda>_. expect_ack ''ACK_ANGLE'' m2)))) [''ACK_PAGES'', ''ACK_ANGLE'']"
      for p g m1 m2
      by (intro phase_send_then phase_ack_then phase_send_ack)
    show ?thesis unfolding a using rotate
      by (cases "opt_pages options") (auto simp: send_options_def Let_def phase_raise r)
  next
    case numbers
    then have a: "option_acks action = [''ACK_POSITION'']" by (simp add: option_acks_def)
    show ?thesis unfolding a using numbers
      by (cases "opt_position options") (auto simp: send_options_def phase_raise phase_send_ack)
  next
    case other
    then have a: "option_acks action = []" by (simp add: option_acks_def)
    show ?thesis unfolding a using other by (simp add: send_options_def phase_return)
  qed
qed

lemma phase_send_request: "ack_phase (send_request make_zip action arg options) (ack_plan action)"
proof -
  let ?rest = "\<lambda>content filename_for_server.
      io_bind (sendall filename_for_server) (\<lambda>_.
      io_bind (expect_ack ''ACK_FILENAME'' ''Invalid ACK after sending filename.'') (\<lambda>_.
      io_bind (sendall (encode_size (int (length content)))) (\<lambda>_.
      io_bind (expect_ack ''ACK_SIZE'' ''Invalid ACK after sending size.'') (\<lambda>_.
      io_bind (send_file_data content) (\<lambda>_.
      send_options action options)))))"
  let ?toks = "[''ACK_FILENAME'', ''ACK_SIZE''] @ option_acks action"
  have fdata: "ack_phase (io_bind (send_file_data c) (\<lambda>_. send_options action options)) (option_acks action)" for c
    using phase_bind [OF phase_send_file_data, of "\<lambda>_. send_options action options" "option_acks action" c]
      phase_send_options by simp
  have rest: "ack_phase (?rest c n) ?toks" for c n
    unfolding append_Cons append_Nil
    by (intro phase_send_then phase_ack_then fdata)
  let ?prep = "\<lambda>s :: conn. case prepare_file make_zip action arg (files s) of
             Inl e \<Rightarrow> (Inl e, s)
           | Inr (content, filename_for_server) \<Rightarrow> ?rest content filename_for_server s"
  have prep: "ack_phase ?prep ?toks"
    unfolding ack_phase_def
  proof
    fix s :: conn
    show "ack_outcome (received (log s)) ?toks (?prep s)"
    proof (cases "prepare_file make_zip action arg (files s)")
      case (Inl e)
      have "ack_outcome (received (log s)) ?toks (Inl e, s)"
        by (rule ack_outcome_stopI [of 0]) simp_all
      then show ?thesis using Inl by simp
    next
      case (Inr cn)
      obtain c n where cn: "cn = (c, n)" by (cases cn)
      have "ack_outcome (received (log s)) ?toks (?rest c n s)"
        using rest by (rule ack_phaseD) simp
      then show ?thesis using Inr cn by simp
    qed
  qed
  have "ack_phase (io_bind (sendall action) (\<lambda>_.
     io_bind (expect_ack ''ACK_ACTION'' ''Invalid ACK after sending action.'') (\<lambda>_. ?prep)))
     (''ACK_ACTION'' # ?toks)"
    by (intro phase_send_then phase_ack_then prep)
  then show ?thesis by (simp add: send_request_def ack_plan_def)
qed

section \<open>The receiving loop\<close>

lemma recv_data_facts:
  "recv_data sz rb d0 s = ((eo, d1), s') \<Longrightarrow> rb = int (length d0) \<Longrightarrow>
     files s' = files s
     \<and> (\<exists>tail. log s' = log s @ tail \<and> d1 = d0 @ concat (received tail))
     \<and> (eo = None \<longrightarrow> int (length d1) = max sz rb)"
proof (induction sz rb d0 s arbitrary: eo d1 s' rule: recv_data.induct)
  case (1 sz rb d0 s)
  show ?case
  proof (cases "rb < sz")
    case False
    then have "recv_data sz rb d0 s = ((None, d0), s)"
      by (simp add: recv_data.simps [of sz rb d0 s])
    then have "eo = None" "d1 = d0" "s' = s" using "1.prems"(1) by simp_all
    then show ?thesis using "1.prems"(2) False by simp
  next
    case True
    let ?n = "nat (min 65536 (sz - rb))"
    obtain r s1 where rs: "recv ?n s = (r, s1)" by (cases "recv ?n s")
    have f1: "files s1 = files s" using rs by (rule recv_files)
    have l1: "log s1 = log s @ [case r of Inr d \<Rightarrow> Recvd ?n d | Inl e \<Rightarrow> RecvFailed ?n e]"
      using rs by (rule recv_log)
    show ?thesis
    proof (cases r)
      case (Inl e)
      then have "recv_data sz rb d0 s = ((Some e, d0), s1)"
        using True rs by (simp add: recv_data.simps [of sz rb d0 s])
      then show ?thesis using "1.prems" f1 l1 Inl by auto
    next
      case (Inr chunk)
      show ?thesis
      proof (cases "chunk = []")
        case True
        then have "recv_data sz rb d0 s
            = ((Some (ConnectionAbortedError ''disconnected during transfer''), d0), s1)"
          using \<open>rb < sz\<close> rs Inr by (simp add: recv_data.simps [of sz rb d0 s])
        then show ?thesis using "1.prems" f1 l1 Inr True by auto
      next
        case False
        have len: "length chunk \<le> ?n" using rs Inr recv_length by blast
        have rec: "recv_data sz rb d0 s = recv_data sz (rb + int (length chunk)) (d0 @ chunk) s1"
          using \<open>rb < sz\<close> rs Inr False by (simp add: recv_data.simps [of sz rb d0 s])
        then have run: "recv_data sz (rb + int (length chunk)) (d0 @ chunk) s1 = ((eo, d1), s')"
          using "1.prems" by simp
        have rb': "rb + int (length chunk) = int (length (d0 @ chunk))" using "1.prems" by simp
        note IH = "1.IH" [OF \<open>rb < sz\<close> rs [symmetric] Inr False run rb']
        from IH obtain tail where t: "log s' = log s1 @ tail" "d1 = (d0 @ chunk) @ concat (received tail)"
          by blast
        have a: "files s' = files s" using IH f1 by simp
        have b: "log s' = log s @ (Recvd ?n chunk # tail) \<and> d1 = d0 @ concat (received (Recvd ?n chunk # tail))"
          using t l1 Inr by simp
        have c: "eo = None \<longrightarrow> int (length d1) = max sz rb"
        proof
          assume "eo = None"
          then have "int (length d1) = max sz (rb + int (length chunk))" using IH by blast
          moreover have "rb + int (length chunk) \<le> sz" using len \<open>rb < sz\<close> by linarith
          ultimately show "int (length d1) = max sz rb" using \<open>rb < sz\<close> by linarith
        qed
        show ?thesis using a b c by blast
      qed
    qed
  qed
qed

section \<open>The result leg of the client\<close>

lemma bind_sendall: "io_bind (sendall d) f s = f () (s\<lparr>log := log s @ [Sent d]\<rparr>)"
  by (simp add: io_bind_def sendall_def)

lemma bind_recv_Inl: "recv n s = (Inl e, s1) \<Longrightarrow> io_bind (recv n) f s = (Inl e, s1)"
  by (simp add: io_bind_def)

lemma bind_recv_Inr: "recv n s = (Inr x, s1) \<Longrightarrow> io_bind (recv n) f s = f x s1"
  by (simp add: io_bind_def)

lemma receive_result_cases:
  assumes run: "receive_result ask s = (r, s')"
  shows "((\<forall>p. r \<noteq> Inr (Saved p)) \<and> files s' = files s \<and> (\<exists>tail. log s' = log s @ tail))
       \<or> (\<exists>name szf d data tail.
             r = Inr (Saved (ask name)) \<and> ask name \<noteq> [] \<and> name \<noteq> []
           \<and> decode_size szf = Some d \<and> d \<noteq> 0
           \<and> log s' = log s @ [Recvd 1024 name, Sent ''ACK_OUT_FILENAME'', Recvd 16 szf, Sent ''ACK_OUT_SIZE''] @ tail
           \<and> data = concat (received tail) \<and> int (length data) = max d 0
           \<and> files s' = (files s)(ask name \<mapsto> data))"
proof -
  obtain r1 s1 where r1: "recv 1024 s = (r1, s1)" by (cases "recv 1024 s")
  have f1: "files s1 = files s" using r1 by (rule recv_files)
  have l1: "log s1 = log s @ [case r1 of Inr d \<Rightarrow> Recvd 1024 d | Inl e \<Rightarrow> RecvFailed 1024 e]"
    using r1 by (rule recv_log)
  show ?thesis
  proof (cases r1)
    case (Inl e)
    then have "receive_result ask s = (Inl e, s1)"
      using r1 by (simp add: receive_result_def bind_recv_Inl)
    then show ?thesis using run f1 l1 by auto
  next
    case (Inr name)
    note name = Inr
    show ?thesis
    proof (cases "name = []")
      case True
      then have "receive_result ask s
          = (Inl (ConnectionAbortedError ''Server disconnected before sending output filename.''), s1)"
        using r1 name by (simp add: receive_result_def bind_recv_Inr io_raise_def)
      then show ?thesis using run f1 l1 by auto
    next
      case False
      note nonempty = False
      let ?s2 = "s1\<lparr>log := log s1 @ [Sent ''ACK_OUT_FILENAME'']\<rparr>"
      obtain r3 s3 where r3: "recv 16 ?s2 = (r3, s3)" by (cases "recv 16 ?s2")
      have f3: "files s3 = files s" using recv_files [OF r3] f1 by simp
      have l3: "log s3 = log s @ [Recvd 1024 name, Sent ''ACK_OUT_FILENAME'',
            case r3 of Inr d \<Rightarrow> Recvd 16 d | Inl e \<Rightarrow> RecvFailed 16 e]"
        using recv_log [OF r3] l1 name by simp
      show ?thesis
      proof (cases r3)
        case (Inl e)
        then have "receive_result ask s = (Inl e, s3)"
          using r1 name nonempty r3
          by (simp add: receive_result_def bind_recv_Inr bind_sendall bind_recv_Inl)
        then show ?thesis using run f3 l3 by auto
      next
        case (Inr szf)
        note szf = Inr
        show ?thesis
        proof (cases "szf = [] \<or> decode_size szf = None")
          case True
          then have "\<exists>e. receive_result ask s = (Inl e, s3)"
            using r1 name nonempty r3 szf
            by (auto simp: receive_result_def bind_recv_Inr bind_sendall io_raise_def)
          then show ?thesis using run f3 l3 by auto
        next
          case False
          then obtain d where d: "decode_size szf = Some d" and sn: "szf \<noteq> []" by auto
          let ?s4 = "s3\<lparr>log := log s3 @ [Sent ''ACK_OUT_SIZE'']\<rparr>"
          let ?k = "\<lambda>output_size output_filename_suggestion.
                    if output_size = 0 \<and> contains ''error_'' (lower output_filename_suggestion) then
                      io_bind (recv 4096) (\<lambda>error_msg.
                        io_raise (PyException
                          (if error_msg \<noteq> [] then ''Server Error: '' @ error_msg
                           else ''Server indicated an error ('' @ output_filename_suggestion @ '').'')))
                    else if output_size = 0 then io_return EmptyResult
                    else
                      io_bind (recv_result output_size) (\<lambda>output_data.
                        (let save_path = ask output_filename_suggestion
                         in if save_path \<noteq> []
                            then io_bind (write_file save_path output_data) (\<lambda>_. io_return (Saved save_path))
                            else io_return SaveCancelled))"
          have step: "receive_result ask s = ?k d name ?s4"
            using r1 name nonempty r3 szf sn d
            by (simp add: receive_result_def bind_recv_Inr bind_sendall)
          have l4: "log ?s4 = log s @ [Recvd 1024 name, Sent ''ACK_OUT_FILENAME'', Recvd 16 szf,
              Sent ''ACK_OUT_SIZE'']"
            using l3 szf by simp
          have f4: "files ?s4 = files s" using f3 by simp
          show ?thesis
          proof (cases "d = 0")
            case True
            show ?thesis
            proof (cases "contains ''error_'' (lower name)")
              case False
              then have "receive_result ask s = (Inr EmptyResult, ?s4)"
                using step True by (simp add: io_return_def)
              then show ?thesis using run f4 l4 by auto
            next
              case True
              obtain r5 s5 where r5: "recv 4096 ?s4 = (r5, s5)" by (cases "recv 4096 ?s4")
              have "\<exists>e. receive_result ask s = (Inl e, s5)"
                using step \<open>d = 0\<close> True r5
                by (cases r5) (auto simp: bind_recv_Inl bind_recv_Inr io_raise_def simp del: recv_def)
              moreover have "files s5 = files s" using recv_files [OF r5] f4 by simp
              moreover have "\<exists>tail. log s5 = log s @ tail" using recv_log [OF r5] l4 by simp
              ultimately show ?thesis using run by auto
            qed
          next
            case False
            obtain eo data s5 where rd: "recv_data d 0 [] ?s4 = ((eo, data), s5)"
              by (cases "recv_data d 0 [] ?s4") auto
            note F = recv_data_facts [OF rd]
            have f5: "files s5 = files s" using F f4 by simp
            obtain tail where tail: "log s5 = log ?s4 @ tail" "data = concat (received tail)"
              using F by auto
            show ?thesis
            proof (cases eo)
              case (Some e)
              then have "receive_result ask s = (Inl e, s5)"
                using step False rd by (simp add: io_bind_def recv_result_def)
              moreover have "\<exists>t. log s5 = log s @ t" using tail(1) l4 by simp
              ultimately show ?thesis using run f5 by auto
            next
              case None
              then have len: "int (length data) = max d 0" using F by simp
              have rr: "recv_result d ?s4 = (Inr data, s5)" using rd None by (simp add: recv_result_def)
              show ?thesis
              proof (cases "ask name = []")
                case True
                then have "receive_result ask s = (Inr SaveCancelled, s5)"
                  using step False rr by (simp add: io_bind_def io_return_def Let_def)
                moreover have "\<exists>t. log s5 = log s @ t" using tail(1) l4 by simp
                ultimately show ?thesis using run f5 by auto
              next
                case False
                then have "receive_result ask s
                    = (Inr (Saved (ask name)), s5\<lparr>files := (files s5)(ask name \<mapsto> data)\<rparr>)"
                  using step \<open>d \<noteq> 0\<close> rr by (simp add: io_bind_def io_return_def Let_def write_file_def)
                then have "r = Inr (Saved (ask name))" "s' = s5\<lparr>files := (files s5)(ask name \<mapsto> data)\<rparr>"
                  using run by simp_all
                moreover have "log s5 = log s @ [Recvd 1024 name, Sent ''ACK_OUT_FILENAME'', Recvd 16 szf,
                    Sent ''ACK_OUT_SIZE''] @ tail"
                  using tail(1) l4 by simp
                ultimately show ?thesis
                  using False nonempty d \<open>d \<noteq> 0\<close> tail(2) len f5 by auto
              qed
            qed
          qed
        qed
      qed
    qed
  qed
qed

section \<open>The request writes no file\<close>

lemma keeps_return: "keeps_files (io_return x)"
  by (simp add: keeps_files_def io_return_def)

lemma keeps_raise: "keeps_files (io_raise e)"
  by (simp add: keeps_files_def io_raise_def)

lemma keeps_sendall: "keeps_files (sendall d)"
  by (simp add: keeps_files_def sendall_def)

lemma keeps_recv: "keeps_files (recv n)"
  unfolding keeps_files_def using recv_files by (metis prod.collapse)

lemma keeps_bind:
  assumes "keeps_files m" and "\<And>x. keeps_files (f x)"
  shows "keeps_files (io_bind m f)"
  unfolding keeps_files_def
proof
  fix s :: conn
  obtain r s1 where ms: "m s = (r, s1)" by (cases "m s")
  have f1: "files s1 = files s" using assms(1) ms by (metis keeps_files_def snd_conv)
  show "files (snd (io_bind m f s)) = files s"
  proof (cases r)
    case (Inl e)
    then show ?thesis using ms f1 by (simp add: io_bind_def)
  next
    case (Inr x)
    then have "io_bind m f s = f x s1" using ms by (simp add: io_bind_def)
    then show ?thesis using assms(2) [of x] f1 by (simp add: keeps_files_def)
  qed
qed

lemma keeps_expect_ack: "keeps_files (expect_ack tok msg)"
  unfolding expect_ack_def by (intro keeps_bind keeps_recv) (simp add: keeps_raise keeps_return)

lemma keeps_send_file_data: "keeps_files (send_file_data c)"
  by (simp add: keeps_files_def send_file_data_eq)

lemma keeps_send_options: "keeps_files (send_options action options)"
  unfolding send_options_def Let_def
  by (auto intro!: keeps_bind keeps_sendall keeps_expect_ack keeps_raise keeps_return
        split: option.splits)

lemma keeps_send_request: "keeps_files (send_request make_zip action arg options)"
proof -
  let ?rest = "\<lambda>content filename_for_server.
      io_bind (sendall filename_for_server) (\<lambda>_.
      io_bind (expect_ack ''ACK_FILENAME'' ''Invalid ACK after sending filename.'') (\<lambda>_.
      io_bind (sendall (encode_size (int (length content)))) (\<lambda>_.
      io_bind (expect_ack ''ACK_SIZE'' ''Invalid ACK after sending size.'') (\<lambda>_.
      io_bind (send_file_data content) (\<lambda>_.
      send_options action options)))))"
  have rest: "keeps_files (?rest c n)" for c n
    by (intro keeps_bind keeps_sendall keeps_expect_ack keeps_send_file_data keeps_send_options)
  let ?prep = "\<lambda>s :: conn. case prepare_file make_zip action arg (files s) of
             Inl e \<Rightarrow> (Inl e, s)
           | Inr (content, filename_for_server) \<Rightarrow> ?rest content filename_for_server s"
  have prep: "keeps_files ?prep"
    unfolding keeps_files_def
  proof
    fix s :: conn
    show "files (snd (?prep s)) = files s"
      using rest by (cases "prepare_file make_zip action arg (files s)") (auto simp: keeps_files_def)
  qed
  show ?thesis unfolding send_request_def
    by (intro keeps_bind keeps_sendall keeps_expect_ack prep)
qed

lemma send_request_files: "send_request make_zip action arg options s = (r, s1) \<Longrightarrow> files s1 = files s"
  using keeps_send_request [of make_zip action arg options] by (metis keeps_files_def snd_conv)

subsection \<open>Evaluating a session on a concrete script\<close>

lemmas client_eval_defs = send_request_to_server_def client_session_def send_request_def io_bind_def
  sendall_def recv_def expect_ack_def io_raise_def io_return_def prepare_file_def path_basename_def
  send_options_def receive_result_def encode_size_def ljust_def str_int_def dec_nat.simps
  digit_char_def send_file_data_def file_chunks.simps ack_plan_def option_acks_def

lemmas weak_congs = prod.case_cong_weak sum.case_cong_weak list.case_cong_weak option.case_cong_weak

lemmas decode_eval_defs = decode_size_def py_int_def strip_def is_space_def parse_unsigned_def
  is_digit_def digit_val_def

lemma replicate_15: "replicate 15 c = [c, c, c, c, c, c, c, c, c, c, c, c, c, c, c]"
  by (simp add: eval_nat_numeral)


section \<open>The two legs of a client session\<close>

lemma client_session_split:
  assumes "client_session make_zip ask action arg options s = (r, s')"
  obtains (request_failed) e where "send_request make_zip action arg options s = (Inl e, s')" "r = Inl e"
    | (request_sent) s1 where "send_request make_zip action arg options s = (Inr (), s1)"
        "receive_result ask s1 = (r, s')"
proof -
  obtain r1 s1 where q: "send_request make_zip action arg options s = (r1, s1)"
    by (cases "send_request make_zip action arg options s")
  show thesis
  proof (cases r1)
    case (Inl e)
    then have "client_session make_zip ask action arg options s = (Inl e, s1)"
      using q by (simp add: client_session_def io_bind_def)
    then show thesis using assms q Inl request_failed by simp
  next
    case (Inr u)
    then have "client_session make_zip ask action arg options s = receive_result ask s1"
      using q by (simp add: client_session_def io_bind_def)
    then show thesis using assms q Inr request_sent by simp
  qed
qed

text \<open>
  Claim C3. On a fresh connection the first things the client receives are the replies to
  its acknowledgement-gated steps, in the order of \<open>ack_plan\<close>. If the reply at one of
  these steps differs from the expected literal (an empty read from a closed connection
  included), then \<^verbatim>\<open>ConnectionAbortedError\<close> is raised, the function returns \<^verbatim>\<open>False\<close>, that
  reply is the last event on the connection (nothing is sent or received after it), and no
  file has been written.
\<close>

theorem bad_ack_aborts_session:
  assumes run: "send_request_to_server make_zip ask action arg options s = (ret, err, s')"
    and fresh: "log s = []"
    and k: "k < length (ack_plan action)" "k < length (received (log s'))"
    and bad: "received (log s') ! k \<noteq> ack_plan action ! k"
  shows "ret = False \<and> (\<exists>msg. err = Some (ConnectionAbortedError msg))
       \<and> length (received (log s')) = Suc k
       \<and> last (log s') = Recvd 1024 (received (log s') ! k)
       \<and> files s' = files s"
proof -
  obtain r where cs: "client_session make_zip ask action arg options s = (r, s')"
    and res: "(ret, err) = (case r of Inr (Saved p) \<Rightarrow> (True, None) | Inr EmptyResult \<Rightarrow> (True, None)
                 | Inr SaveCancelled \<Rightarrow> (False, None) | Inl e \<Rightarrow> (False, Some e))"
    using run by (auto simp: send_request_to_server_def split: prod.splits sum.splits client_ok.splits)
  let ?plan = "ack_plan action"
  from cs show ?thesis
  proof (cases rule: client_session_split)
    case (request_sent s1)
    have "ack_outcome (received (log s)) ?plan (Inr (), s1)"
      using phase_send_request request_sent(1) by (rule ack_phaseD)
    then have r1: "received (log s1) = ?plan" using fresh by (simp add: ack_outcome_def)
    obtain tail where "log s' = log s1 @ tail"
      using receive_result_cases [OF request_sent(2)] by auto
    then have "received (log s') = ?plan @ received tail" using r1 by (simp add: received_append)
    then have "received (log s') ! k = ?plan ! k" using k(1) by (simp add: nth_append)
    then show ?thesis using bad by simp
  next
    case (request_failed e)
    have o: "ack_outcome (received (log s)) ?plan (Inl e :: error + unit, s')"
      using phase_send_request request_failed(1) by (rule ack_phaseD)
    have fs: "files s' = files s" using request_failed(1) by (rule send_request_files)
    have re: "ret = False" "err = Some e" using res request_failed(2) by simp_all
    from o show ?thesis
    proof (cases rule: ack_outcome_InlE)
      case (stop j)
      then have "received (log s') = take j ?plan" using fresh by simp
      then have "received (log s') ! k = ?plan ! k" using k(2) by simp
      then show ?thesis using bad by simp
    next
      case (bad j b msg)
      then have rl: "received (log s') = take j ?plan @ [b]" using fresh by simp
      have lj: "length (take j ?plan) = j" using bad(1) by simp
      have "k = j"
      proof (rule ccontr)
        assume "k \<noteq> j"
        then have "k < j" using k(2) rl lj by simp
        then have "received (log s') ! k = ?plan ! k" using rl lj by (simp add: nth_append)
        then show False using \<open>received (log s') ! k \<noteq> ack_plan action ! k\<close> by simp
      qed
      then have "received (log s') ! k = b" using rl lj by (simp add: nth_append)
      then show ?thesis using re bad(5,6) rl lj \<open>k = j\<close> fs by simp
    qed
  qed
qed

theorem bad_ack_aborts_session_witness:
  "log \<lparr>inq = [Data ''ACK_ACTION''], log = [], files = [''/home/u/a.pdf'' \<mapsto> ''hello'']\<rparr> = []
   \<and> (1::nat) < length (ack_plan ''compress'')
   \<and> send_request_to_server (\<lambda>x. []) (\<lambda>n. ''/home/u/out.pdf'') ''compress'' (OnePath ''/home/u/a.pdf'')
        \<lparr>opt_password = None, opt_ranges = None, opt_pages = None, opt_angle = None, opt_position = None\<rparr>
        \<lparr>inq = [Data ''ACK_ACTION''], log = [], files = [''/home/u/a.pdf'' \<mapsto> ''hello'']\<rparr>
      = (False, Some (ConnectionAbortedError ''Invalid ACK after sending filename.''),
         \<lparr>inq = [], log = [Sent ''compress'', Recvd 1024 ''ACK_ACTION'', Sent ''a.pdf'', Recvd 1024 []],
          files = [''/home/u/a.pdf'' \<mapsto> ''hello'']\<rparr>)
   \<and> received [Sent ''compress'', Recvd 1024 ''ACK_ACTION'', Sent ''a.pdf'', Recvd 1024 []] ! 1
        \<noteq> ack_plan ''compress'' ! 1
   \<and> length (received [Sent ''compress'', Recvd 1024 ''ACK_ACTION'', Sent ''a.pdf'', Recvd 1024 []]) = Suc 1
   \<and> last [Sent ''compress'', Recvd 1024 ''ACK_ACTION'', Sent ''a.pdf'', Recvd 1024 []] = Recvd 1024 []"
proof -
  let ?s = "\<lparr>inq = [Data ''ACK_ACTION''], log = [], files = [''/home/u/a.pdf'' \<mapsto> ''hello'']\<rparr>"
  let ?o = "\<lparr>opt_password = None, opt_ranges = None, opt_pages = None, opt_angle = None, opt_position = None\<rparr>"
  let ?l = "[Sent ''compress'', Recvd 1024 ''ACK_ACTION'', Sent ''a.pdf'', Recvd 1024 []]"
  let ?s' = "\<lparr>inq = [], log = ?l, files = [''/home/u/a.pdf'' \<mapsto> ''hello'']\<rparr>"
  have run: "send_request_to_server (\<lambda>x. []) (\<lambda>n. ''/home/u/out.pdf'') ''compress'' (OnePath ''/home/u/a.pdf'') ?o ?s
      = (False, Some (ConnectionAbortedError ''Invalid ACK after sending filename.''), ?s')"
    by (simp add: client_eval_defs
          cong: prod.case_cong_weak sum.case_cong_weak list.case_cong_weak option.case_cong_weak)
  have fresh: "log ?s = []" by simp
  have k1: "(1::nat) < length (ack_plan ''compress'')" by (simp add: ack_plan_def option_acks_def)
  have k2: "1 < length (received (log ?s'))" by simp
  have b: "received (log ?s') ! 1 \<noteq> ack_plan ''compress'' ! 1" by (simp add: ack_plan_def option_acks_def)
  show ?thesis
    using bad_ack_aborts_session [OF run fresh k1 k2 b] run fresh k1 b by simp
qed




subsection \<open>An envelope that declares no data\<close>

lemma decode_size_empty: "decode_size [] = None"
  by (simp add: decode_size_def py_int_def strip_def)

lemma receive_result_zero:
  assumes run: "receive_result ask s = (r, s')"
    and env: "log s' = log s @ [Recvd 1024 name, Sent ''ACK_OUT_FILENAME'', Recvd 16 szf] @ tail"
    and sz: "decode_size szf = Some 0"
  shows "files s' = files s
       \<and> (if contains ''error_'' (lower name)
          then (\<exists>ev. tail = [Sent ''ACK_OUT_SIZE'', ev]
                 \<and> ((\<exists>m. ev = Recvd 4096 m
                        \<and> r = Inl (PyException
                              (if m \<noteq> [] then ''Server Error: '' @ m
                               else ''Server indicated an error ('' @ name @ '').'')))
                    \<or> (\<exists>e. ev = RecvFailed 4096 e \<and> r = Inl e)))
          else r = Inr EmptyResult \<and> tail = [Sent ''ACK_OUT_SIZE''])"
proof -
  obtain r1 s1 where r1: "recv 1024 s = (r1, s1)" by (cases "recv 1024 s")
  have f1: "files s1 = files s" using r1 by (rule recv_files)
  have l1: "log s1 = log s @ [case r1 of Inr d \<Rightarrow> Recvd 1024 d | Inl e \<Rightarrow> RecvFailed 1024 e]"
    using r1 by (rule recv_log)
  show ?thesis
  proof (cases r1)
    case (Inl e)
    then have "receive_result ask s = (Inl e, s1)"
      using r1 by (simp add: receive_result_def bind_recv_Inl)
    then have "s' = s1" using run by simp
    then show ?thesis using env l1 by simp
  next
    case (Inr name')
    note name' = Inr
    show ?thesis
    proof (cases "name' = []")
      case True
      then have "receive_result ask s
          = (Inl (ConnectionAbortedError ''Server disconnected before sending output filename.''), s1)"
        using r1 name' by (simp add: receive_result_def bind_recv_Inr io_raise_def)
      then have "s' = s1" using run by simp
      then show ?thesis using env l1 by simp
    next
      case False
      note nonempty = False
      let ?s2 = "s1\<lparr>log := log s1 @ [Sent ''ACK_OUT_FILENAME'']\<rparr>"
      obtain r3 s3 where r3: "recv 16 ?s2 = (r3, s3)" by (cases "recv 16 ?s2")
      have f3: "files s3 = files s" using recv_files [OF r3] f1 by simp
      have l3: "log s3 = log s @ [Recvd 1024 name', Sent ''ACK_OUT_FILENAME'',
            case r3 of Inr d \<Rightarrow> Recvd 16 d | Inl e \<Rightarrow> RecvFailed 16 e]"
        using recv_log [OF r3] l1 name' by simp
      show ?thesis
      proof (cases r3)
        case (Inl e)
        then have "receive_result ask s = (Inl e, s3)"
          using r1 name' nonempty r3
          by (simp add: receive_result_def bind_recv_Inr bind_sendall bind_recv_Inl)
        then have "s' = s3" using run by simp
        then show ?thesis using env l3 Inl by simp
      next
        case (Inr szf')
        note szf' = Inr
        show ?thesis
        proof (cases "szf' = [] \<or> decode_size szf' = None")
          case True
          then have "\<exists>e. receive_result ask s = (Inl e, s3)"
            using r1 name' nonempty r3 szf'
            by (auto simp: receive_result_def bind_recv_Inr bind_sendall io_raise_def)
          then have "s' = s3" using run by auto
          then have "szf' = szf" using env l3 szf' by simp
          then show ?thesis using True sz decode_size_empty by auto
        next
          case False
          then obtain d where d: "decode_size szf' = Some d" and sn: "szf' \<noteq> []" by auto
          let ?s4 = "s3\<lparr>log := log s3 @ [Sent ''ACK_OUT_SIZE'']\<rparr>"
          let ?k = "\<lambda>output_size output_filename_suggestion.
                    if output_size = 0 \<and> contains ''error_'' (lower output_filename_suggestion) then
                      io_bind (recv 4096) (\<lambda>error_msg.
                        io_raise (PyException
                          (if error_msg \<noteq> [] then ''Server Error: '' @ error_msg
                           else ''Server indicated an error ('' @ output_filename_suggestion @ '').'')))
                    else if output_size = 0 then io_return EmptyResult
                    else
                      io_bind (recv_result output_size) (\<lambda>output_data.
                        (let save_path = ask output_filename_suggestion
                         in if save_path \<noteq> []
                            then io_bind (write_file save_path output_data) (\<lambda>_. io_return (Saved save_path))
                            else io_return SaveCancelled))"
          have step: "receive_result ask s = ?k d name' ?s4"
            using r1 name' nonempty r3 szf' sn d
            by (simp add: receive_result_def bind_recv_Inr bind_sendall)
          have l4: "log ?s4 = log s @ [Recvd 1024 name', Sent ''ACK_OUT_FILENAME'', Recvd 16 szf',
              Sent ''ACK_OUT_SIZE'']"
            using l3 szf' by simp
          have f4: "files ?s4 = files s" using f3 by simp
          have ext: "\<exists>t. log s' = log ?s4 @ t"
          proof (cases "d = 0")
            case True
            show ?thesis
            proof (cases "contains ''error_'' (lower name')")
              case False
              then have "receive_result ask s = (Inr EmptyResult, ?s4)"
                using step True by (simp add: io_return_def)
              then have "s' = ?s4" using run by simp
              then show ?thesis by simp
            next
              case True
              obtain r5 s5 where r5: "recv 4096 ?s4 = (r5, s5)" by (cases "recv 4096 ?s4")
              have "\<exists>e. receive_result ask s = (Inl e, s5)"
                using step \<open>d = 0\<close> True r5
                by (cases r5) (auto simp: bind_recv_Inl bind_recv_Inr io_raise_def simp del: recv_def)
              then have "s' = s5" using run by auto
              then show ?thesis using recv_log [OF r5] by simp
            qed
          next
            case False
            obtain eo data s5 where rd: "recv_data d 0 [] ?s4 = ((eo, data), s5)"
              by (cases "recv_data d 0 [] ?s4") auto
            note F = recv_data_facts [OF rd]
            obtain t where t: "log s5 = log ?s4 @ t" using F by auto
            have "log s' = log s5"
            proof (cases eo)
              case (Some e)
              then have "receive_result ask s = (Inl e, s5)"
                using step False rd by (simp add: io_bind_def recv_result_def)
              then show ?thesis using run by simp
            next
              case None
              then have rr: "recv_result d ?s4 = (Inr data, s5)" using rd by (simp add: recv_result_def)
              show ?thesis
              proof (cases "ask name' = []")
                case True
                then have "receive_result ask s = (Inr SaveCancelled, s5)"
                  using step False rr by (simp add: io_bind_def io_return_def Let_def)
                then show ?thesis using run by simp
              next
                case False
                then have "receive_result ask s
                    = (Inr (Saved (ask name')), s5\<lparr>files := (files s5)(ask name' \<mapsto> data)\<rparr>)"
                  using step \<open>d \<noteq> 0\<close> rr by (simp add: io_bind_def io_return_def Let_def write_file_def)
                then show ?thesis using run by auto
              qed
            qed
            then show ?thesis using t by auto
          qed
          then obtain t where t: "log s' = log s @ [Recvd 1024 name', Sent ''ACK_OUT_FILENAME'',
              Recvd 16 szf', Sent ''ACK_OUT_SIZE''] @ t"
            using l4 by auto
          have same: "name' = name" "szf' = szf" and tl: "tail = Sent ''ACK_OUT_SIZE'' # t"
            using env t by simp_all
          have d0: "d = 0" using d sz same by simp
          show ?thesis
          proof (cases "contains ''error_'' (lower name)")
            case False
            then have "receive_result ask s = (Inr EmptyResult, ?s4)"
              using step d0 same by (simp add: io_return_def)
            then have "r = Inr EmptyResult" "s' = ?s4" using run by simp_all
            then show ?thesis using False f4 l4 t tl by simp
          next
            case True
            obtain r5 s5 where r5: "recv 4096 ?s4 = (r5, s5)" by (cases "recv 4096 ?s4")
            have l5: "log s5 = log ?s4 @ [case r5 of Inr d \<Rightarrow> Recvd 4096 d | Inl e \<Rightarrow> RecvFailed 4096 e]"
              using r5 by (rule recv_log)
            have f5: "files s5 = files s" using recv_files [OF r5] f4 by simp
            show ?thesis
            proof (cases r5)
              case (Inl e)
              then have "receive_result ask s = (Inl e, s5)"
                using step d0 True same r5 by (simp add: bind_recv_Inl)
              then have "r = Inl e" "s' = s5" using run by simp_all
              then show ?thesis using True f5 l5 l4 t tl Inl by auto
            next
              case (Inr m)
              then have "receive_result ask s
                  = (Inl (PyException (if m \<noteq> [] then ''Server Error: '' @ m
                               else ''Server indicated an error ('' @ name @ '').'')), s5)"
                using step d0 True same r5 by (simp add: bind_recv_Inr io_raise_def)
              then have "r = Inl (PyException (if m \<noteq> [] then ''Server Error: '' @ m
                               else ''Server indicated an error ('' @ name @ '').''))" "s' = s5"
                using run by simp_all
              then show ?thesis using True f5 l5 l4 t tl Inr by auto
            qed
          qed
        qed
      qed
    qed
  qed
qed

lemma contains_lower: "contains sub n \<Longrightarrow> contains (lower sub) (lower n)"
proof (induction n)
  case Nil
  then show ?case by (simp add: lower_def)
next
  case (Cons c cs)
  have "take (length sub) (c # cs) = sub \<Longrightarrow> take (length (lower sub)) (lower (c # cs)) = lower sub"
    unfolding lower_def by (metis length_map take_map)
  then show ?case using Cons by (auto simp: lower_def)
qed

lemma lower_error_tag: "lower ''error_'' = ''error_''"
  by (simp add: lower_def lower_char_def is_upper_def)

text \<open>
  Claim C2, as the code has it. The client has sent its request and then received a
  suggested name and a size field that declares 0. No file is written. If the name in
  lower case contains \<^verbatim>\<open>error_\<close> (as it does when the name itself contains it), the
  session fails (\<^verbatim>\<open>False\<close>) and after acknowledging the size the client calls \<^verbatim>\<open>recv(4096)\<close>
  exactly once: what it returns is the message of the exception, unless that call itself
  raises. Otherwise the session succeeds (\<^verbatim>\<open>True\<close>, no exception) and acknowledging the
  size is the last thing the client does on the connection: it reads nothing more.
\<close>

theorem zero_size_envelope:
  assumes run: "send_request_to_server make_zip ask action arg options s = (ret, err, s')"
    and req: "send_request make_zip action arg options s = (Inr (), s1)"
    and env: "log s' = log s1 @ [Recvd 1024 name, Sent ''ACK_OUT_FILENAME'', Recvd 16 szf] @ tail"
    and sz: "decode_size szf = Some 0"
  shows "files s' = files s
       \<and> (contains ''error_'' name \<longrightarrow> contains ''error_'' (lower name))
       \<and> (if contains ''error_'' (lower name)
          then ret = False
             \<and> (\<exists>ev. tail = [Sent ''ACK_OUT_SIZE'', ev]
                 \<and> ((\<exists>m. ev = Recvd 4096 m
                        \<and> err = Some (PyException
                              (if m \<noteq> [] then ''Server Error: '' @ m
                               else ''Server indicated an error ('' @ name @ '').'')))
                    \<or> (\<exists>e. ev = RecvFailed 4096 e \<and> err = Some e)))
          else ret = True \<and> err = None \<and> tail = [Sent ''ACK_OUT_SIZE''])"
proof -
  obtain r where cs: "client_session make_zip ask action arg options s = (r, s')"
    and res: "(ret, err) = (case r of Inr (Saved p) \<Rightarrow> (True, None) | Inr EmptyResult \<Rightarrow> (True, None)
                 | Inr SaveCancelled \<Rightarrow> (False, None) | Inl e \<Rightarrow> (False, Some e))"
    using run by (auto simp: send_request_to_server_def split: prod.splits sum.splits client_ok.splits)
  have rr: "receive_result ask s1 = (r, s')"
    using cs req by (simp add: client_session_def io_bind_def)
  have f1: "files s1 = files s" using req by (rule send_request_files)
  note Z = receive_result_zero [OF rr env sz]
  have a: "files s' = files s" using Z f1 by simp
  have b: "contains ''error_'' name \<longrightarrow> contains ''error_'' (lower name)"
    using contains_lower [of "''error_''" name] lower_error_tag by simp
  show ?thesis
  proof (cases "contains ''error_'' (lower name)")
    case True
    then obtain ev where ev: "tail = [Sent ''ACK_OUT_SIZE'', ev]"
      and c: "(\<exists>m. ev = Recvd 4096 m
                 \<and> r = Inl (PyException (if m \<noteq> [] then ''Server Error: '' @ m
                               else ''Server indicated an error ('' @ name @ '').'')))
              \<or> (\<exists>e. ev = RecvFailed 4096 e \<and> r = Inl e)"
      using Z by auto
    from c have "ret = False
        \<and> ((\<exists>m. ev = Recvd 4096 m
               \<and> err = Some (PyException (if m \<noteq> [] then ''Server Error: '' @ m
                               else ''Server indicated an error ('' @ name @ '').'')))
            \<or> (\<exists>e. ev = RecvFailed 4096 e \<and> err = Some e))"
      using res by auto
    then show ?thesis using True a b ev by simp
  next
    case False
    then have "r = Inr EmptyResult" "tail = [Sent ''ACK_OUT_SIZE'']" using Z by simp_all
    then show ?thesis using False a b res by simp
  qed
qed

theorem zero_size_envelope_witness:
  "send_request_to_server (\<lambda>x. []) (\<lambda>n. ''/home/u/out.pdf'') ''compress'' (OnePath ''/home/u/a.pdf'')
        \<lparr>opt_password = None, opt_ranges = None, opt_pages = None, opt_angle = None, opt_position = None\<rparr>
        \<lparr>inq = [Data ''ACK_ACTION'', Data ''ACK_FILENAME'', Data ''ACK_SIZE'', Data ''error_processing.bin'',
                 Data ''0               '', Data ''boom''],
          log = [], files = [''/home/u/a.pdf'' \<mapsto> ''hello'']\<rparr>
      = (False, Some (PyException ''Server Error: boom''),
         \<lparr>inq = [],
          log = [Sent ''compress'', Recvd 1024 ''ACK_ACTION'', Sent ''a.pdf'', Recvd 1024 ''ACK_FILENAME'',
                 Sent ''5               '', Recvd 1024 ''ACK_SIZE'', Sent ''hello'',
                 Recvd 1024 ''error_processing.bin'', Sent ''ACK_OUT_FILENAME'', Recvd 16 ''0               '',
                 Sent ''ACK_OUT_SIZE'', Recvd 4096 ''boom''],
          files = [''/home/u/a.pdf'' \<mapsto> ''hello'']\<rparr>)
   \<and> decode_size ''0               '' = Some 0
   \<and> contains ''error_'' ''error_processing.bin''
   \<and> contains ''error_'' (lower ''error_processing.bin'')
   \<and> send_request_to_server (\<lambda>x. []) (\<lambda>n. ''/home/u/out.pdf'') ''compress'' (OnePath ''/home/u/a.pdf'')
        \<lparr>opt_password = None, opt_ranges = None, opt_pages = None, opt_angle = None, opt_position = None\<rparr>
        \<lparr>inq = [Data ''ACK_ACTION'', Data ''ACK_FILENAME'', Data ''ACK_SIZE'', Data ''empty.pdf'',
                 Data ''0               '', Data ''boom''],
          log = [], files = [''/home/u/a.pdf'' \<mapsto> ''hello'']\<rparr>
      = (True, None,
         \<lparr>inq = [Data ''boom''],
          log = [Sent ''compress'', Recvd 1024 ''ACK_ACTION'', Sent ''a.pdf'', Recvd 1024 ''ACK_FILENAME'',
                 Sent ''5               '', Recvd 1024 ''ACK_SIZE'', Sent ''hello'',
                 Recvd 1024 ''empty.pdf'', Sent ''ACK_OUT_FILENAME'', Recvd 16 ''0               '',
                 Sent ''ACK_OUT_SIZE''],
          files = [''/home/u/a.pdf'' \<mapsto> ''hello'']\<rparr>)
   \<and> \<not> contains ''error_'' (lower ''empty.pdf'')"
proof -
  let ?o = "\<lparr>opt_password = None, opt_ranges = None, opt_pages = None, opt_angle = None, opt_position = None\<rparr>"
  let ?f = "[''/home/u/a.pdf'' \<mapsto> ''hello'']"
  let ?l1 = "[Sent ''compress'', Recvd 1024 ''ACK_ACTION'', Sent ''a.pdf'', Recvd 1024 ''ACK_FILENAME'',
              Sent ''5               '', Recvd 1024 ''ACK_SIZE'', Sent ''hello'']"
  let ?qA = "[Data ''error_processing.bin'', Data ''0               '', Data ''boom'']"
  let ?qB = "[Data ''empty.pdf'', Data ''0               '', Data ''boom'']"
  let ?sA = "\<lparr>inq = [Data ''ACK_ACTION'', Data ''ACK_FILENAME'', Data ''ACK_SIZE''] @ ?qA, log = [], files = ?f\<rparr>"
  let ?sB = "\<lparr>inq = [Data ''ACK_ACTION'', Data ''ACK_FILENAME'', Data ''ACK_SIZE''] @ ?qB, log = [], files = ?f\<rparr>"
  let ?sA1 = "\<lparr>inq = ?qA, log = ?l1, files = ?f\<rparr>"
  let ?sB1 = "\<lparr>inq = ?qB, log = ?l1, files = ?f\<rparr>"
  let ?sA' = "\<lparr>inq = [], log = ?l1 @ [Recvd 1024 ''error_processing.bin'', Sent ''ACK_OUT_FILENAME'',
                 Recvd 16 ''0               '', Sent ''ACK_OUT_SIZE'', Recvd 4096 ''boom''], files = ?f\<rparr>"
  let ?sB' = "\<lparr>inq = [Data ''boom''], log = ?l1 @ [Recvd 1024 ''empty.pdf'', Sent ''ACK_OUT_FILENAME'',
                 Recvd 16 ''0               '', Sent ''ACK_OUT_SIZE''], files = ?f\<rparr>"
  have runA: "send_request_to_server (\<lambda>x. []) (\<lambda>n. ''/home/u/out.pdf'') ''compress'' (OnePath ''/home/u/a.pdf'') ?o ?sA
      = (False, Some (PyException ''Server Error: boom''), ?sA')"
    by (simp add: client_eval_defs decode_eval_defs lower_def lower_char_def is_upper_def Let_def
          replicate_15 cong: weak_congs)
  have reqA: "send_request (\<lambda>x. []) ''compress'' (OnePath ''/home/u/a.pdf'') ?o ?sA = (Inr (), ?sA1)"
    by (simp add: client_eval_defs replicate_15 cong: weak_congs)
  have envA: "log ?sA' = log ?sA1 @ [Recvd 1024 ''error_processing.bin'', Sent ''ACK_OUT_FILENAME'',
      Recvd 16 ''0               ''] @ [Sent ''ACK_OUT_SIZE'', Recvd 4096 ''boom'']"
    by simp
  have runB: "send_request_to_server (\<lambda>x. []) (\<lambda>n. ''/home/u/out.pdf'') ''compress'' (OnePath ''/home/u/a.pdf'') ?o ?sB
      = (True, None, ?sB')"
    by (simp add: client_eval_defs decode_eval_defs lower_def lower_char_def is_upper_def Let_def
          replicate_15 cong: weak_congs)
  have reqB: "send_request (\<lambda>x. []) ''compress'' (OnePath ''/home/u/a.pdf'') ?o ?sB = (Inr (), ?sB1)"
    by (simp add: client_eval_defs replicate_15 cong: weak_congs)
  have envB: "log ?sB' = log ?sB1 @ [Recvd 1024 ''empty.pdf'', Sent ''ACK_OUT_FILENAME'',
      Recvd 16 ''0               ''] @ [Sent ''ACK_OUT_SIZE'']"
    by simp
  have sz: "decode_size ''0               '' = Some 0" by (simp add: decode_eval_defs)
  have cA: "contains ''error_'' ''error_processing.bin''" by simp
  have cB: "\<not> contains ''error_'' (lower ''empty.pdf'')"
    by (simp add: lower_def lower_char_def is_upper_def)
  show ?thesis
    using zero_size_envelope [OF runA reqA envA sz] zero_size_envelope [OF runB reqB envB sz]
      runA runB sz cA cB
    by simp
qed

text \<open>
  The sentence of the specification fails for a name that has the tag in upper case: the
  test of the client is \<^verbatim>\<open>"error_" in output_filename_suggestion.lower()\<close>. The name
  \<^verbatim>\<open>ERROR_x.bin\<close> does not contain \<^verbatim>\<open>error_\<close>, yet with size 0 the session fails and the
  client reads a message block.
\<close>

theorem zero_size_uppercase_counterexample:
  "\<not> contains ''error_'' ''ERROR_x.bin''
   \<and> decode_size ''0               '' = Some 0
   \<and> send_request_to_server (\<lambda>x. []) (\<lambda>n. ''/home/u/out.pdf'') ''compress'' (OnePath ''/home/u/a.pdf'')
        \<lparr>opt_password = None, opt_ranges = None, opt_pages = None, opt_angle = None, opt_position = None\<rparr>
        \<lparr>inq = [Data ''ACK_ACTION'', Data ''ACK_FILENAME'', Data ''ACK_SIZE'', Data ''ERROR_x.bin'',
                 Data ''0               '', Data ''boom''],
          log = [], files = [''/home/u/a.pdf'' \<mapsto> ''hello'']\<rparr>
      = (False, Some (PyException ''Server Error: boom''),
         \<lparr>inq = [],
          log = [Sent ''compress'', Recvd 1024 ''ACK_ACTION'', Sent ''a.pdf'', Recvd 1024 ''ACK_FILENAME'',
                 Sent ''5               '', Recvd 1024 ''ACK_SIZE'', Sent ''hello'',
                 Recvd 1024 ''ERROR_x.bin'', Sent ''ACK_OUT_FILENAME'', Recvd 16 ''0               '',
                 Sent ''ACK_OUT_SIZE'', Recvd 4096 ''boom''],
          files = [''/home/u/a.pdf'' \<mapsto> ''hello'']\<rparr>)"
  by (simp add: client_eval_defs decode_eval_defs lower_def lower_char_def is_upper_def Let_def
        replicate_15 cong: weak_congs)

end
